theory Spec2Isabelle
  imports
    Complex_Main
    "HOL-Library.Char_ord"
    "HOL-Library.List_Lexorder"
    "HOL-Library.Option_ord"
    "HOL-Library.Product_Lexorder"
begin

section \<open>Characters and strings\<close>

text \<open>
  Strings are \<^typ>\<open>string\<close>. The character classes and the case mapping below are the
  ASCII part of what Python's \<^verbatim>\<open>str.strip\<close>, \<^verbatim>\<open>str.lower\<close>, \<^verbatim>\<open>\W\<close> and the
  regex engine of polars (\<^verbatim>\<open>\s\<close>, \<^verbatim>\<open>to_lowercase\<close>) do; on characters outside ASCII
  both libraries consult Unicode tables, which are not part of this development: there
  the functions below leave the character alone and class it as neither a word
  character nor white space.
\<close>

definition code :: "char \<Rightarrow> nat" where
  "code c = of_char c"

definition is_ascii :: "char \<Rightarrow> bool" where
  "is_ascii c = (code c < 128)"

definition is_upper :: "char \<Rightarrow> bool" where
  "is_upper c = (65 \<le> code c \<and> code c \<le> 90)"

definition is_lower :: "char \<Rightarrow> bool" where
  "is_lower c = (97 \<le> code c \<and> code c \<le> 122)"

definition is_digit :: "char \<Rightarrow> bool" where
  "is_digit c = (48 \<le> code c \<and> code c \<le> 57)"

definition is_alnum :: "char \<Rightarrow> bool" where
  "is_alnum c = (is_upper c \<or> is_lower c \<or> is_digit c)"

text \<open>\<^verbatim>\<open>\w\<close>: a letter, a digit or the underscore; \<^verbatim>\<open>\W\<close> is its complement.\<close>

definition is_word :: "char \<Rightarrow> bool" where
  "is_word c = (is_alnum c \<or> c = CHR ''_'')"

text \<open>
  White space as \<^verbatim>\<open>str.strip()\<close> of Python sees it: tab, line feed, vertical tab, form
  feed, carriage return, the four separators 0x1c to 0x1f, and the space.
\<close>

definition py_space :: "char \<Rightarrow> bool" where
  "py_space c = ((9 \<le> code c \<and> code c \<le> 13) \<or> (28 \<le> code c \<and> code c \<le> 32))"

text \<open>White space as \<^verbatim>\<open>\s\<close> of the regex engine of polars sees it.\<close>

definition re_space :: "char \<Rightarrow> bool" where
  "re_space c = ((9 \<le> code c \<and> code c \<le> 13) \<or> code c = 32)"

definition to_lower :: "char \<Rightarrow> char" where
  "to_lower c = (if is_upper c then char_of (code c + 32) else c)"

definition lower :: "string \<Rightarrow> string" where
  "lower s = map to_lower s"

text \<open>Removing the characters of a class from both ends of a string.\<close>

definition trim_with :: "(char \<Rightarrow> bool) \<Rightarrow> string \<Rightarrow> string" where
  "trim_with sp s = rev (dropWhile sp (rev (dropWhile sp s)))"

text \<open>\<^verbatim>\<open>col.strip()\<close>\<close>

definition strip :: "string \<Rightarrow> string" where
  "strip s = trim_with py_space s"

section \<open>Stage 2: column headers\<close>

text \<open>
  \<^verbatim>\<open>re.sub(r'\W+', '_', s)\<close>: scanning from the left, every maximal run of non-word
  characters is replaced by one underscore; word characters are copied.
\<close>

function re_sub_nonword :: "string \<Rightarrow> string" where
  "re_sub_nonword [] = []"
| "re_sub_nonword (c # cs) =
     (if is_word c then c # re_sub_nonword cs
      else CHR ''_'' # re_sub_nonword (dropWhile (\<lambda>x. \<not> is_word x) cs))"
  by pat_completeness auto
termination
  by (relation "measure length") (auto simp: le_imp_less_Suc length_dropWhile_le)

text \<open>\<^verbatim>\<open>re.sub(r'\W+', '_', col.strip().lower())\<close>\<close>

definition normalize_header :: "string \<Rightarrow> string" where
  "normalize_header col = re_sub_nonword (lower (strip col))"

text \<open>The pattern \<^verbatim>\<open>^[a-z0-9_]+$\<close>.\<close>

definition canonical_char :: "char \<Rightarrow> bool" where
  "canonical_char c = (is_lower c \<or> is_digit c \<or> c = CHR ''_'')"

definition matches_canonical :: "string \<Rightarrow> bool" where
  "matches_canonical s = (s \<noteq> [] \<and> list_all canonical_char s)"

definition leading_underscore :: "string \<Rightarrow> bool" where
  "leading_underscore s = (case s of [] \<Rightarrow> False | c # _ \<Rightarrow> c = CHR ''_'')"

definition trailing_underscore :: "string \<Rightarrow> bool" where
  "trailing_underscore s = leading_underscore (rev s)"

section \<open>Data frames\<close>

text \<open>
  The exceptions of polars that the program can meet. A strict conversion that fails is
  reported as \<open>ComputeError\<close>, the exception the program catches around it.
\<close>

datatype error = ComputeError | ColumnNotFoundError | DuplicateError | InvalidOperationError

text \<open>A calendar date: year, month, day. The product order is the chronological one.\<close>

type_synonym date = "nat \<times> nat \<times> nat"

text \<open>
  A 64-bit float, idealised: a finite value is an exact rational (no rounding, no signed
  zero), beside the two infinities and NaN.
\<close>

datatype f64 = Fin rat | PosInf | NegInf | NaN

text \<open>
  A column is a typed list of cells; \<open>None\<close> is the null of polars (a missing value),
  which is not the string \<^verbatim>\<open>"null"\<close>.
\<close>

datatype series =
    Utf8 "string option list"
  | Int64 "int option list"
  | Float64 "f64 option list"
  | Boolean "bool option list"
  | Date "date option list"

datatype dtype = DUtf8 | DInt64 | DFloat64 | DBoolean | DDate

fun dtype_of :: "series \<Rightarrow> dtype" where
  "dtype_of (Utf8 _) = DUtf8"
| "dtype_of (Int64 _) = DInt64"
| "dtype_of (Float64 _) = DFloat64"
| "dtype_of (Boolean _) = DBoolean"
| "dtype_of (Date _) = DDate"

text \<open>A data frame: its columns in order, each under its name.\<close>

type_synonym dataframe = "(string \<times> series) list"

definition columns :: "dataframe \<Rightarrow> string list" where
  "columns df = map fst df"

text \<open>\<^verbatim>\<open>df[col]\<close>\<close>

definition get_column :: "dataframe \<Rightarrow> string \<Rightarrow> series option" where
  "get_column df col = map_of df col"

fun series_len :: "series \<Rightarrow> nat" where
  "series_len (Utf8 xs) = length xs"
| "series_len (Int64 xs) = length xs"
| "series_len (Float64 xs) = length xs"
| "series_len (Boolean xs) = length xs"
| "series_len (Date xs) = length xs"

definition height :: "dataframe \<Rightarrow> nat" where
  "height df = (case df of [] \<Rightarrow> 0 | (_, s) # _ \<Rightarrow> series_len s)"

text \<open>The invariant of a polars frame: distinct column names, columns of one length.\<close>

definition wf_frame :: "dataframe \<Rightarrow> bool" where
  "wf_frame df = (distinct (columns df) \<and> list_all (\<lambda>(_, s). series_len s = height df) df)"

text \<open>
  \<^verbatim>\<open>df.with_columns(expr.alias(name))\<close> for one evaluated expression: a column of that
  name is replaced where it stands, a new name is appended.
\<close>

definition with_column :: "string \<Rightarrow> series \<Rightarrow> dataframe \<Rightarrow> dataframe" where
  "with_column name s df =
     (if name \<in> set (columns df)
      then map (\<lambda>(n, t). if n = name then (n, s) else (n, t)) df
      else df @ [(name, s)])"

text \<open>
  \<^verbatim>\<open>df.with_columns(exprs)\<close>: the expressions were all evaluated on the frame as it was;
  their results are put in one after the other.
\<close>

definition with_columns :: "(string \<times> series) list \<Rightarrow> dataframe \<Rightarrow> dataframe" where
  "with_columns new df = fold (\<lambda>(n, s) d. with_column n s d) new df"

text \<open>Gathering rows by index, as sorting, filtering and deduplication do.\<close>

definition gather :: "nat list \<Rightarrow> 'a list \<Rightarrow> 'a list" where
  "gather idxs xs = map (\<lambda>i. xs ! i) idxs"

fun take_series :: "nat list \<Rightarrow> series \<Rightarrow> series" where
  "take_series idxs (Utf8 xs) = Utf8 (gather idxs xs)"
| "take_series idxs (Int64 xs) = Int64 (gather idxs xs)"
| "take_series idxs (Float64 xs) = Float64 (gather idxs xs)"
| "take_series idxs (Boolean xs) = Boolean (gather idxs xs)"
| "take_series idxs (Date xs) = Date (gather idxs xs)"

definition take_rows :: "nat list \<Rightarrow> dataframe \<Rightarrow> dataframe" where
  "take_rows idxs df = map (\<lambda>(n, s). (n, take_series idxs s)) df"

text \<open>Cells of any type, to compare whole rows.\<close>

datatype cell = CStr string | CInt int | CFloat f64 | CBool bool | CDate date

fun cells :: "series \<Rightarrow> cell option list" where
  "cells (Utf8 xs) = map (map_option CStr) xs"
| "cells (Int64 xs) = map (map_option CInt) xs"
| "cells (Float64 xs) = map (map_option CFloat) xs"
| "cells (Boolean xs) = map (map_option CBool) xs"
| "cells (Date xs) = map (map_option CDate) xs"

definition row :: "dataframe \<Rightarrow> nat \<Rightarrow> cell option list" where
  "row df i = map (\<lambda>(_, s). cells s ! i) df"

definition rows :: "dataframe \<Rightarrow> cell option list list" where
  "rows df = map (row df) [0..<height df]"

text \<open>\<^verbatim>\<open>df.rename(mapping)\<close>; polars refuses a frame with two columns of one name.\<close>

definition rename :: "(string \<Rightarrow> string) \<Rightarrow> dataframe \<Rightarrow> error + dataframe" where
  "rename f df =
     (let df' = map (\<lambda>(n, s). (f n, s)) df
      in if distinct (columns df') then Inr df' else Inl DuplicateError)"

definition normalize_headers :: "dataframe \<Rightarrow> error + dataframe" where
  "normalize_headers df = rename normalize_header df"

section \<open>Stage 3: text columns\<close>

definition NULL_EQUIV :: "string list" where
  "NULL_EQUIV = ['''', '' '', ''na'', ''n/a'', ''null'', ''-'']"

text \<open>
  \<^verbatim>\<open>.str.replace_all(r'^\s+|\s+$', '').str.to_lowercase()\<close>; string functions map a
  null to a null.
\<close>

definition trim_lower :: "string \<Rightarrow> string" where
  "trim_lower s = lower (trim_with re_space s)"

text \<open>\<^verbatim>\<open>.is_in(values)\<close>\<close>

definition is_in :: "string option \<Rightarrow> string list \<Rightarrow> bool option" where
  "is_in c vs = map_option (\<lambda>s. s \<in> set vs) c"

text \<open>
  \<^verbatim>\<open>pl.when(cond).then(a).otherwise(b)\<close> on one row: \<open>a\<close> where the condition is true,
  \<open>b\<close> where it is false or null.
\<close>

definition when_then_otherwise :: "bool option \<Rightarrow> 'a option \<Rightarrow> 'a option \<Rightarrow> 'a option" where
  "when_then_otherwise cond a b = (if cond = Some True then a else b)"

definition clean_cell :: "string option \<Rightarrow> string option" where
  "clean_cell c =
     when_then_otherwise (is_in (map_option trim_lower c) NULL_EQUIV)
       (Some ''null'')
       (map_option trim_lower c)"

text \<open>The list \<^verbatim>\<open>clean_cols\<close>: one expression for each column of type Utf8.\<close>

fun clean_cols :: "dataframe \<Rightarrow> (string \<times> series) list" where
  "clean_cols [] = []"
| "clean_cols ((col, s) # df) =
     (case s of
        Utf8 xs \<Rightarrow> (col, Utf8 (map clean_cell xs)) # clean_cols df
      | _ \<Rightarrow> clean_cols df)"

definition clean_text :: "dataframe \<Rightarrow> dataframe" where
  "clean_text df = with_columns (clean_cols df) df"

section \<open>Stage 4: date columns\<close>

text \<open>\<^verbatim>\<open>"trade" in c\<close>: the substring test of Python.\<close>

fun starts_with :: "string \<Rightarrow> string \<Rightarrow> bool" where
  "starts_with [] s = True"
| "starts_with (p # ps) [] = False"
| "starts_with (p # ps) (c # cs) = (p = c \<and> starts_with ps cs)"

fun contains :: "string \<Rightarrow> string \<Rightarrow> bool" where
  "contains sub [] = (sub = [])"
| "contains sub (c # cs) = (starts_with sub (c # cs) \<or> contains sub cs)"

definition date_cols :: "dataframe \<Rightarrow> string list" where
  "date_cols df = filter (contains ''trade'') (columns df)"

definition date_formats :: "string list" where
  "date_formats = [''%Y-%m-%d'', ''%m/%d/%Y'', ''%d/%m/%Y'']"

subsection \<open>Date layouts\<close>

text \<open>
  A layout is a string of the specifiers \<^verbatim>\<open>%Y\<close>, \<^verbatim>\<open>%m\<close>, \<^verbatim>\<open>%d\<close> and of literal
  characters, the only ones the program uses. Reading a date, a specifier takes the
  digits in front, at least one and at most four for the year, two for the month and the
  day; a literal must be met as it is; nothing may be left over; and the three numbers
  must form a date of the calendar.
\<close>

datatype item = Literal char | Year | Month | Day

fun compile_fmt :: "string \<Rightarrow> item list" where
  "compile_fmt [] = []"
| "compile_fmt [c] = [Literal c]"
| "compile_fmt (c # d # r) =
     (if c = CHR ''%'' \<and> d = CHR ''Y'' then Year # compile_fmt r
      else if c = CHR ''%'' \<and> d = CHR ''m'' then Month # compile_fmt r
      else if c = CHR ''%'' \<and> d = CHR ''d'' then Day # compile_fmt r
      else Literal c # compile_fmt (d # r))"

definition digit_val :: "char \<Rightarrow> nat" where
  "digit_val c = code c - 48"

definition digits_to_nat :: "string \<Rightarrow> nat" where
  "digits_to_nat ds = foldl (\<lambda>n c. 10 * n + digit_val c) 0 ds"

definition scan_number :: "nat \<Rightarrow> string \<Rightarrow> (nat \<times> string) option" where
  "scan_number w s =
     (let ds = takeWhile is_digit (take w s)
      in if ds = [] then None else Some (digits_to_nat ds, drop (length ds) s))"

type_synonym parsed = "nat option \<times> nat option \<times> nat option"

fun parse_items :: "item list \<Rightarrow> string \<Rightarrow> parsed \<Rightarrow> parsed option" where
  "parse_items [] s acc = (if s = [] then Some acc else None)"
| "parse_items (Literal c # its) s acc =
     (case s of [] \<Rightarrow> None | x # xs \<Rightarrow> if x = c then parse_items its xs acc else None)"
| "parse_items (Year # its) s (y, m, d) =
     (case scan_number 4 s of None \<Rightarrow> None
      | Some (v, rest) \<Rightarrow> parse_items its rest (Some v, m, d))"
| "parse_items (Month # its) s (y, m, d) =
     (case scan_number 2 s of None \<Rightarrow> None
      | Some (v, rest) \<Rightarrow> parse_items its rest (y, Some v, d))"
| "parse_items (Day # its) s (y, m, d) =
     (case scan_number 2 s of None \<Rightarrow> None
      | Some (v, rest) \<Rightarrow> parse_items its rest (y, m, Some v))"

definition leap_year :: "nat \<Rightarrow> bool" where
  "leap_year y = (y mod 4 = 0 \<and> (y mod 100 \<noteq> 0 \<or> y mod 400 = 0))"

definition days_in_month :: "nat \<Rightarrow> nat \<Rightarrow> nat" where
  "days_in_month y m =
     (if m = 2 then (if leap_year y then 29 else 28)
      else if m = 4 \<or> m = 6 \<or> m = 9 \<or> m = 11 then 30 else 31)"

definition valid_date :: "date \<Rightarrow> bool" where
  "valid_date dt = (case dt of (y, m, d) \<Rightarrow> 1 \<le> m \<and> m \<le> 12 \<and> 1 \<le> d \<and> d \<le> days_in_month y m)"

definition parse_date :: "string \<Rightarrow> string \<Rightarrow> date option" where
  "parse_date fmt s =
     (case parse_items (compile_fmt fmt) s (None, None, None) of
        Some (Some y, Some m, Some d) \<Rightarrow> if valid_date (y, m, d) then Some (y, m, d) else None
      | _ \<Rightarrow> None)"

text \<open>Writing a date: the year on four digits, the month and the day on two.\<close>

definition digit_char :: "nat \<Rightarrow> char" where
  "digit_char n = char_of (48 + n)"

function dec :: "nat \<Rightarrow> string" where
  "dec n = (if n < 10 then [digit_char n] else dec (n div 10) @ [digit_char (n mod 10)])"
  by pat_completeness auto
termination
  by (relation "measure id") auto

definition zero_pad :: "nat \<Rightarrow> nat \<Rightarrow> string" where
  "zero_pad w n = replicate (w - length (dec n)) (CHR ''0'') @ dec n"

fun format_item :: "date \<Rightarrow> item \<Rightarrow> string" where
  "format_item dt (Literal c) = [c]"
| "format_item (y, m, d) Year = zero_pad 4 y"
| "format_item (y, m, d) Month = zero_pad 2 m"
| "format_item (y, m, d) Day = zero_pad 2 d"

definition format_date :: "string \<Rightarrow> date \<Rightarrow> string" where
  "format_date fmt dt = concat (map (format_item dt) (compile_fmt fmt))"

subsection \<open>Strict parsing of a column\<close>

definition null_count :: "'a option list \<Rightarrow> nat" where
  "null_count xs = length (filter (\<lambda>x. x = None) xs)"

text \<open>
  \<^verbatim>\<open>.str.strptime(pl.Date, format=fmt, strict=True)\<close> on a column of strings: every
  cell is parsed, a null stays a null and a string that does not parse becomes one; the
  strict mode raises when the result has more nulls than the column had.
\<close>

definition strptime_cell :: "string \<Rightarrow> string option \<Rightarrow> date option" where
  "strptime_cell fmt c = (case c of None \<Rightarrow> None | Some s \<Rightarrow> parse_date fmt s)"

definition strptime_strict :: "string \<Rightarrow> string option list \<Rightarrow> error + date option list" where
  "strptime_strict fmt xs =
     (let out = map (strptime_cell fmt) xs
      in if null_count out = null_count xs then Inr out else Inl ComputeError)"

text \<open>
  \<^verbatim>\<open>df.with_columns(pl.col(col).str.strptime(pl.Date, format=fmt, strict=True).alias(col))\<close>
\<close>

definition str_strptime :: "string \<Rightarrow> string \<Rightarrow> dataframe \<Rightarrow> error + dataframe" where
  "str_strptime col fmt df =
     (case get_column df col of
        None \<Rightarrow> Inl ColumnNotFoundError
      | Some (Utf8 xs) \<Rightarrow>
          (case strptime_strict fmt xs of
             Inl e \<Rightarrow> Inl e
           | Inr ds \<Rightarrow> Inr (with_column col (Date ds) df))
      | Some _ \<Rightarrow> Inl InvalidOperationError)"

text \<open>\<^verbatim>\<open>df.with_columns(pl.col(col).dt.strftime(fmt).alias(col))\<close>\<close>

definition dt_strftime :: "string \<Rightarrow> string \<Rightarrow> dataframe \<Rightarrow> error + dataframe" where
  "dt_strftime col fmt df =
     (case get_column df col of
        None \<Rightarrow> Inl ColumnNotFoundError
      | Some (Date ds) \<Rightarrow> Inr (with_column col (Utf8 (map (map_option (format_date fmt)) ds)) df)
      | Some _ \<Rightarrow> Inl InvalidOperationError)"

subsection \<open>The retry loop\<close>

text \<open>
  The loop \<^verbatim>\<open>for fmt in date_formats\<close>. Its result is the variable \<^verbatim>\<open>PARSED\<close>. The
  loop variable \<open>fmt\<close> goes into the message that is printed and nowhere else: the
  call of \<^verbatim>\<open>strptime\<close> has the constant \<^verbatim>\<open>format="%m/%d/%Y"\<close>. Only \<open>ComputeError\<close>
  is caught.
\<close>

fun try_formats :: "string list \<Rightarrow> string \<Rightarrow> dataframe \<Rightarrow> error + dataframe option" where
  "try_formats [] col df = Inr None"
| "try_formats (fmt # fmts) col df =
     (case str_strptime col ''%m/%d/%Y'' df of
        Inr parsed \<Rightarrow> Inr (Some parsed)
      | Inl ComputeError \<Rightarrow> try_formats fmts col df
      | Inl e \<Rightarrow> Inl e)"

text \<open>The body of \<^verbatim>\<open>for col in date_cols\<close>.\<close>

definition fix_date_column :: "string \<Rightarrow> dataframe \<Rightarrow> error + dataframe" where
  "fix_date_column col df =
     (case get_column df col of
        None \<Rightarrow> Inl ColumnNotFoundError
      | Some s \<Rightarrow>
          if dtype_of s \<noteq> DUtf8 then Inr df
          else (case try_formats date_formats col df of
                  Inl e \<Rightarrow> Inl e
                | Inr None \<Rightarrow> Inr df
                | Inr (Some parsed) \<Rightarrow> dt_strftime col ''%Y-%m-%d'' parsed))"

fun fix_date_loop :: "string list \<Rightarrow> dataframe \<Rightarrow> error + dataframe" where
  "fix_date_loop [] df = Inr df"
| "fix_date_loop (col # cols) df =
     (case fix_date_column col df of
        Inl e \<Rightarrow> Inl e
      | Inr df' \<Rightarrow> fix_date_loop cols df')"

definition fix_dates :: "dataframe \<Rightarrow> error + dataframe" where
  "fix_dates df = fix_date_loop (date_cols df) df"

text \<open>A string matches a layout when it reads as a date under it.\<close>

definition parses :: "string \<Rightarrow> string \<Rightarrow> bool" where
  "parses fmt s = (parse_date fmt s \<noteq> None)"

text \<open>
  The retry loop as the specification words it, for comparison with \<open>try_formats\<close>:
  each candidate layout is itself the one that is tried.
\<close>

fun spec_try_formats :: "string list \<Rightarrow> string \<Rightarrow> dataframe \<Rightarrow> error + dataframe option" where
  "spec_try_formats [] col df = Inr None"
| "spec_try_formats (fmt # fmts) col df =
     (case str_strptime col fmt df of
        Inr parsed \<Rightarrow> Inr (Some parsed)
      | Inl ComputeError \<Rightarrow> spec_try_formats fmts col df
      | Inl e \<Rightarrow> Inl e)"

section \<open>Stage 5: the target schema\<close>

definition target_schema :: "(string \<times> dtype) list" where
  "target_schema =
     [(''trade_date'', DUtf8), (''ticker'', DUtf8), (''sector'', DUtf8),
      (''open_price'', DFloat64), (''close_price'', DFloat64), (''volume'', DInt64),
      (''validated'', DUtf8), (''currency'', DUtf8), (''exchange'', DUtf8),
      (''notes'', DUtf8)]"

subsection \<open>Reading numbers from text\<close>

text \<open>An optional sign in front of a string.\<close>

definition split_sign :: "string \<Rightarrow> bool \<times> string" where
  "split_sign s =
     (case s of
        [] \<Rightarrow> (False, [])
      | c # r \<Rightarrow> if c = CHR ''-'' then (True, r) else if c = CHR ''+'' then (False, r) else (False, s))"

text \<open>An integer: an optional sign and digits, nothing else, within 64 bits.\<close>

definition parse_i64 :: "string \<Rightarrow> int option" where
  "parse_i64 s =
     (case split_sign s of (neg, ds) \<Rightarrow>
        if ds \<noteq> [] \<and> list_all is_digit ds
        then (let v = (if neg then - int (digits_to_nat ds) else int (digits_to_nat ds))
              in if - (2 ^ 63) \<le> v \<and> v < 2 ^ 63 then Some v else None)
        else None)"

text \<open>
  A float: an optional sign, then \<^verbatim>\<open>inf\<close>, \<^verbatim>\<open>infinity\<close> or \<^verbatim>\<open>nan\<close> in any case, or
  a decimal number (digits with at most one point and at least one digit) with an
  optional exponent.
\<close>

definition scale10 :: "rat \<Rightarrow> int \<Rightarrow> rat" where
  "scale10 q e = (if 0 \<le> e then q * 10 ^ nat e else q / 10 ^ nat (- e))"

definition parse_exponent :: "string \<Rightarrow> int option" where
  "parse_exponent s =
     (case s of
        [] \<Rightarrow> Some 0
      | c # r \<Rightarrow>
          if c = CHR ''e'' \<or> c = CHR ''E''
          then (case split_sign r of (neg, ds) \<Rightarrow>
                  if ds \<noteq> [] \<and> list_all is_digit ds
                  then Some (if neg then - int (digits_to_nat ds) else int (digits_to_nat ds))
                  else None)
          else None)"

definition parse_decimal :: "string \<Rightarrow> rat option" where
  "parse_decimal s =
     (let ip = takeWhile is_digit s;
          r1 = dropWhile is_digit s;
          fp = (case r1 of [] \<Rightarrow> [] | c # r \<Rightarrow> if c = CHR ''.'' then takeWhile is_digit r else []);
          r2 = (case r1 of [] \<Rightarrow> [] | c # r \<Rightarrow> if c = CHR ''.'' then dropWhile is_digit r else r1)
      in if ip = [] \<and> fp = [] then None
         else (case parse_exponent r2 of
                 None \<Rightarrow> None
               | Some e \<Rightarrow> Some (scale10 (of_nat (digits_to_nat (ip @ fp))) (e - int (length fp)))))"

definition fneg :: "f64 \<Rightarrow> f64" where
  "fneg x = (case x of Fin q \<Rightarrow> Fin (- q) | PosInf \<Rightarrow> NegInf | NegInf \<Rightarrow> PosInf | NaN \<Rightarrow> NaN)"

definition parse_f64 :: "string \<Rightarrow> f64 option" where
  "parse_f64 s =
     (case split_sign s of (neg, body) \<Rightarrow>
        (let v = (if lower body = ''inf'' \<or> lower body = ''infinity'' then Some PosInf
                  else if lower body = ''nan'' then Some NaN
                  else map_option Fin (parse_decimal body))
         in map_option (\<lambda>x. if neg then fneg x else x) v))"

subsection \<open>Casts\<close>

definition int_to_str :: "int \<Rightarrow> string" where
  "int_to_str i = (if i < 0 then CHR ''-'' # dec (nat (- i)) else dec (nat i))"

definition bool_to_str :: "bool \<Rightarrow> string" where
  "bool_to_str b = (if b then ''true'' else ''false'')"

text \<open>A float to an integer: towards zero; what is not finite or does not fit is lost.\<close>

definition f64_to_i64 :: "f64 \<Rightarrow> int option" where
  "f64_to_i64 x =
     (case x of
        Fin q \<Rightarrow> (let t = (if 0 \<le> q then \<lfloor>q\<rfloor> else \<lceil>q\<rceil>)
                  in if - (2 ^ 63) \<le> t \<and> t < 2 ^ 63 then Some t else None)
      | _ \<Rightarrow> None)"

text \<open>
  \<^verbatim>\<open>pl.col(col).cast(dtype, strict=False)\<close>: a cell that does not convert becomes a null.
  The text of a float is the library's shortest representation of the machine number,
  which the idealised floats do not determine: it is the parameter \<open>repr\<close>. A cast to
  the type the column has is the identity. The program asks for Utf8, Float64 and Int64
  only, and no column of dates reaches this stage; the other casts are not described
  and stand as \<open>InvalidOperationError\<close>.
\<close>

fun cast :: "(f64 \<Rightarrow> string) \<Rightarrow> dtype \<Rightarrow> series \<Rightarrow> error + series" where
  "cast repr DUtf8 (Utf8 xs) = Inr (Utf8 xs)"
| "cast repr DUtf8 (Int64 xs) = Inr (Utf8 (map (map_option int_to_str) xs))"
| "cast repr DUtf8 (Float64 xs) = Inr (Utf8 (map (map_option repr) xs))"
| "cast repr DUtf8 (Boolean xs) = Inr (Utf8 (map (map_option bool_to_str) xs))"
| "cast repr DUtf8 (Date xs) = Inr (Utf8 (map (map_option (format_date ''%Y-%m-%d'')) xs))"
| "cast repr DFloat64 (Utf8 xs) = Inr (Float64 (map (\<lambda>c. Option.bind c parse_f64) xs))"
| "cast repr DFloat64 (Int64 xs) = Inr (Float64 (map (map_option (\<lambda>i. Fin (of_int i))) xs))"
| "cast repr DFloat64 (Float64 xs) = Inr (Float64 xs)"
| "cast repr DFloat64 (Boolean xs) = Inr (Float64 (map (map_option (\<lambda>b. Fin (if b then 1 else 0))) xs))"
| "cast repr DInt64 (Utf8 xs) = Inr (Int64 (map (\<lambda>c. Option.bind c parse_i64) xs))"
| "cast repr DInt64 (Int64 xs) = Inr (Int64 xs)"
| "cast repr DInt64 (Float64 xs) = Inr (Int64 (map (\<lambda>c. Option.bind c f64_to_i64) xs))"
| "cast repr DInt64 (Boolean xs) = Inr (Int64 (map (map_option (\<lambda>b. if b then 1 else 0)) xs))"
| "cast repr DBoolean (Boolean xs) = Inr (Boolean xs)"
| "cast repr DDate (Date xs) = Inr (Date xs)"
| "cast repr _ _ = Inl InvalidOperationError"

text \<open>The list \<^verbatim>\<open>casted\<close>: one cast for each column of the schema that the frame has.\<close>

fun casted :: "(f64 \<Rightarrow> string) \<Rightarrow> (string \<times> dtype) list \<Rightarrow> dataframe \<Rightarrow> error + (string \<times> series) list" where
  "casted repr [] df = Inr []"
| "casted repr ((col, t) # schema) df =
     (case get_column df col of
        None \<Rightarrow> casted repr schema df
      | Some s \<Rightarrow>
          (case cast repr t s of
             Inl e \<Rightarrow> Inl e
           | Inr s' \<Rightarrow>
               (case casted repr schema df of
                  Inl e \<Rightarrow> Inl e
                | Inr cs \<Rightarrow> Inr ((col, s') # cs))))"

definition enforce_schema :: "(f64 \<Rightarrow> string) \<Rightarrow> dataframe \<Rightarrow> error + dataframe" where
  "enforce_schema repr df =
     (case casted repr target_schema df of
        Inl e \<Rightarrow> Inl e
      | Inr cs \<Rightarrow> Inr (with_columns cs df))"

section \<open>Stage 6: duplicate rows\<close>

text \<open>
  \<^verbatim>\<open>df.unique()\<close> keeps one row of each set of equal rows. Which one, and in what order,
  polars does not promise; here it is the first, in the order of the frame.
\<close>

definition first_occurrences :: "'a list \<Rightarrow> nat list" where
  "first_occurrences rs = filter (\<lambda>i. rs ! i \<notin> set (take i rs)) [0..<length rs]"

definition unique :: "dataframe \<Rightarrow> dataframe" where
  "unique df = take_rows (first_occurrences (rows df)) df"

section \<open>Stage 7: aggregates\<close>

subsection \<open>Float arithmetic\<close>

fun fadd :: "f64 \<Rightarrow> f64 \<Rightarrow> f64" where
  "fadd (Fin a) (Fin b) = Fin (a + b)"
| "fadd NaN _ = NaN"
| "fadd _ NaN = NaN"
| "fadd PosInf NegInf = NaN"
| "fadd NegInf PosInf = NaN"
| "fadd PosInf _ = PosInf"
| "fadd _ PosInf = PosInf"
| "fadd NegInf _ = NegInf"
| "fadd _ NegInf = NegInf"

definition fsub :: "f64 \<Rightarrow> f64 \<Rightarrow> f64" where
  "fsub a b = fadd a (fneg b)"

text \<open>Division; a finite number divided by zero is an infinity of its sign, or NaN.\<close>

fun fdiv :: "f64 \<Rightarrow> f64 \<Rightarrow> f64" where
  "fdiv (Fin a) (Fin b) =
     (if b = 0 then (if a = 0 then NaN else if 0 < a then PosInf else NegInf)
      else Fin (a / b))"
| "fdiv NaN _ = NaN"
| "fdiv _ NaN = NaN"
| "fdiv (Fin a) _ = Fin 0"
| "fdiv PosInf (Fin b) = (if 0 \<le> b then PosInf else NegInf)"
| "fdiv NegInf (Fin b) = (if 0 \<le> b then NegInf else PosInf)"
| "fdiv _ _ = NaN"

text \<open>\<^verbatim>\<open>.mean()\<close>: the mean of the cells that are not null, null when there is none.\<close>

definition mean_f64 :: "f64 option list \<Rightarrow> f64 option" where
  "mean_f64 xs =
     (let vs = [v. Some v \<leftarrow> xs]
      in if vs = [] then None else Some (fdiv (foldl fadd (Fin 0) vs) (Fin (of_nat (length vs)))))"

text \<open>
  The mean is taken of a column of floats or of integers; the schema stage leaves the
  columns of prices and volumes so, and no other type comes here.
\<close>

definition mean_series :: "series \<Rightarrow> error + f64 option" where
  "mean_series s =
     (case s of
        Float64 xs \<Rightarrow> Inr (mean_f64 xs)
      | Int64 xs \<Rightarrow> Inr (mean_f64 (map (map_option (\<lambda>i. Fin (of_int i))) xs))
      | _ \<Rightarrow> Inl InvalidOperationError)"

subsection \<open>Frame operations\<close>

text \<open>\<^verbatim>\<open>df.select(names)\<close>\<close>

fun select :: "string list \<Rightarrow> dataframe \<Rightarrow> error + dataframe" where
  "select [] df = Inr []"
| "select (n # ns) df =
     (case get_column df n of
        None \<Rightarrow> Inl ColumnNotFoundError
      | Some s \<Rightarrow> (case select ns df of Inl e \<Rightarrow> Inl e | Inr d \<Rightarrow> Inr ((n, s) # d)))"

text \<open>\<^verbatim>\<open>df.filter(pl.col(col).is_not_null())\<close>\<close>

definition filter_not_null :: "string \<Rightarrow> dataframe \<Rightarrow> error + dataframe" where
  "filter_not_null col df =
     (case get_column df col of
        None \<Rightarrow> Inl ColumnNotFoundError
      | Some s \<Rightarrow> Inr (take_rows (filter (\<lambda>i. cells s ! i \<noteq> None) [0..<height df]) df))"

text \<open>\<^verbatim>\<open>df.drop_nulls()\<close>: the rows without any null.\<close>

definition drop_nulls :: "dataframe \<Rightarrow> dataframe" where
  "drop_nulls df = take_rows (filter (\<lambda>i. list_all (\<lambda>c. c \<noteq> None) (row df i)) [0..<height df]) df"

text \<open>
  \<^verbatim>\<open>df.group_by(keys).agg(pl.col(val).mean().alias(name))\<close>: one row for each
  combination of key cells (a null is a key like another), with the mean of the group.
  The order of the groups is not promised by polars; here it is that of their first rows.
\<close>

fun mean_groups :: "series \<Rightarrow> nat list list \<Rightarrow> error + f64 option list" where
  "mean_groups s [] = Inr []"
| "mean_groups s (g # gs) =
     (case mean_series (take_series g s) of
        Inl e \<Rightarrow> Inl e
      | Inr m \<Rightarrow> (case mean_groups s gs of Inl e \<Rightarrow> Inl e | Inr ms \<Rightarrow> Inr (m # ms)))"

definition group_by_mean :: "string list \<Rightarrow> string \<Rightarrow> string \<Rightarrow> dataframe \<Rightarrow> error + dataframe" where
  "group_by_mean keys val name df =
     (case select keys df of
        Inl e \<Rightarrow> Inl e
      | Inr kdf \<Rightarrow>
          (case get_column df val of
             None \<Rightarrow> Inl ColumnNotFoundError
           | Some s \<Rightarrow>
               (let krows = map (row kdf) [0..<height df];
                    firsts = first_occurrences krows;
                    groups = map (\<lambda>i. filter (\<lambda>j. krows ! j = krows ! i) [0..<height df]) firsts
                in case mean_groups s groups of
                     Inl e \<Rightarrow> Inl e
                   | Inr ms \<Rightarrow> Inr (take_rows firsts kdf @ [(name, Float64 ms)]))))"

subsection \<open>Aggregates 1 and 2\<close>

definition aggregate1 :: "dataframe \<Rightarrow> error + dataframe" where
  "aggregate1 df =
     (case filter_not_null ''close_price'' df of
        Inl e \<Rightarrow> Inl e
      | Inr d \<Rightarrow> group_by_mean [''trade_date'', ''ticker''] ''close_price'' ''avg_close'' d)"

definition aggregate2 :: "dataframe \<Rightarrow> error + dataframe" where
  "aggregate2 df =
     (case filter_not_null ''volume'' df of
        Inl e \<Rightarrow> Inl e
      | Inr d \<Rightarrow> group_by_mean [''sector''] ''volume'' ''avg_volume'' d)"

subsection \<open>Aggregate 3\<close>

text \<open>
  \<^verbatim>\<open>.str.strptime(pl.Date)\<close> without a format: polars takes the first cell that is not
  null and looks for a layout of its own list that reads it; with that layout the column
  is parsed strictly. No cell to look at, or no layout for it, is a \<open>ComputeError\<close>.
\<close>

definition DATE_PATTERNS :: "string list" where
  "DATE_PATTERNS =
     [''%d-%m-%Y'', ''%d/%m/%Y'', ''%d.%m.%Y'', ''%Y/%m/%d'', ''%Y-%m-%d'', ''%Y.%m.%d'']"

definition infer_format :: "string option list \<Rightarrow> error + string" where
  "infer_format xs =
     (case [v. Some v \<leftarrow> xs] of
        [] \<Rightarrow> Inl ComputeError
      | v # _ \<Rightarrow> (case find (\<lambda>fmt. parses fmt v) DATE_PATTERNS of
                    None \<Rightarrow> Inl ComputeError
                  | Some fmt \<Rightarrow> Inr fmt))"

text \<open>\<^verbatim>\<open>df.with_columns(pl.col(col).str.strptime(pl.Date))\<close>\<close>

definition str_strptime_infer :: "string \<Rightarrow> dataframe \<Rightarrow> error + dataframe" where
  "str_strptime_infer col df =
     (case get_column df col of
        None \<Rightarrow> Inl ColumnNotFoundError
      | Some (Utf8 xs) \<Rightarrow>
          (case infer_format xs of
             Inl e \<Rightarrow> Inl e
           | Inr fmt \<Rightarrow>
               (case strptime_strict fmt xs of
                  Inl e \<Rightarrow> Inl e
                | Inr ds \<Rightarrow> Inr (with_column col (Date ds) df)))
      | Some _ \<Rightarrow> Inl InvalidOperationError)"

text \<open>
  \<^verbatim>\<open>.sort(["ticker", "trade_date"])\<close>, ascending with nulls first, for a ticker column
  of strings and a date column of dates, which is what the stages before leave. Rows
  with equal keys are left in the order they had; polars does not promise their order.
\<close>

definition sort_ticker_date :: "dataframe \<Rightarrow> error + dataframe" where
  "sort_ticker_date df =
     (case (get_column df ''ticker'', get_column df ''trade_date'') of
        (None, _) \<Rightarrow> Inl ColumnNotFoundError
      | (_, None) \<Rightarrow> Inl ColumnNotFoundError
      | (Some (Utf8 ts), Some (Date ds)) \<Rightarrow>
          Inr (take_rows (sort_key (\<lambda>i. (ts ! i, ds ! i)) [0..<height df]) df)
      | _ \<Rightarrow> Inl InvalidOperationError)"

text \<open>\<^verbatim>\<open>.shift(1)\<close>\<close>

definition shift1 :: "'a option list \<Rightarrow> 'a option list" where
  "shift1 xs = (if xs = [] then [] else None # butlast xs)"

text \<open>\<^verbatim>\<open>pl.col("close_price") / pl.col("close_price").shift(1) - 1\<close>, null where an
  operand is null.\<close>

definition return_cell :: "f64 option \<Rightarrow> f64 option \<Rightarrow> f64 option" where
  "return_cell a b =
     (case (a, b) of (Some x, Some y) \<Rightarrow> Some (fsub (fdiv x y) (Fin 1)) | _ \<Rightarrow> None)"

definition return_expr :: "f64 option list \<Rightarrow> f64 option list" where
  "return_expr closes = map (\<lambda>(a, b). return_cell a b) (zip closes (shift1 closes))"

text \<open>
  \<^verbatim>\<open>expr.over(key)\<close>: the expression is evaluated on the rows of each group of equal
  keys, in their order in the frame, and every row gets the value at its place in its
  group.
\<close>

definition over :: "'k list \<Rightarrow> ('a list \<Rightarrow> 'b list) \<Rightarrow> 'a list \<Rightarrow> 'b list" where
  "over keys f xs =
     map (\<lambda>i. let idxs = filter (\<lambda>j. keys ! j = keys ! i) [0..<length xs]
              in f (gather idxs xs) ! length (filter (\<lambda>j. j < i) idxs))
       [0..<length xs]"

text \<open>
  \<^verbatim>\<open>tmp.with_columns((...).over("ticker").alias("return"))\<close>, for a price column of
  floats, which is what the schema stage leaves.
\<close>

definition with_return :: "dataframe \<Rightarrow> error + dataframe" where
  "with_return df =
     (case (get_column df ''close_price'', get_column df ''ticker'') of
        (None, _) \<Rightarrow> Inl ColumnNotFoundError
      | (_, None) \<Rightarrow> Inl ColumnNotFoundError
      | (Some (Float64 cs), Some t) \<Rightarrow>
          Inr (with_column ''return'' (Float64 (over (cells t) return_expr cs)) df)
      | _ \<Rightarrow> Inl InvalidOperationError)"

text \<open>The guarded block; \<open>None\<close> is the block skipped, with nothing written.\<close>

definition aggregate3 :: "dataframe \<Rightarrow> error + dataframe option" where
  "aggregate3 df =
     (if {''ticker'', ''trade_date'', ''close_price''} \<subseteq> set (columns df)
      then (case str_strptime_infer ''trade_date'' df of
              Inl e \<Rightarrow> Inl e
            | Inr d \<Rightarrow>
                (case sort_ticker_date d of
                   Inl e \<Rightarrow> Inl e
                 | Inr tmp \<Rightarrow>
                     (case with_return tmp of
                        Inl e \<Rightarrow> Inl e
                      | Inr tmp' \<Rightarrow>
                          (case select [''trade_date'', ''ticker'', ''return''] tmp' of
                             Inl e \<Rightarrow> Inl e
                           | Inr sel \<Rightarrow> Inr (Some (drop_nulls sel))))))
      else Inr None)"

section \<open>The run\<close>

text \<open>
  What a run leaves behind: the files it wrote, and the exception that ended it, if one
  did. A file written before an exception stays written. Printing is not described.
\<close>

record outcome =
  cleaned :: "dataframe option"
  agg1 :: "dataframe option"
  agg2 :: "dataframe option"
  agg3 :: "dataframe option"
  raised :: "error option"

definition nothing :: outcome where
  "nothing = \<lparr>cleaned = None, agg1 = None, agg2 = None, agg3 = None, raised = None\<rparr>"

text \<open>Stage 7 on the cleaned frame, which has been written.\<close>

definition aggregates :: "dataframe \<Rightarrow> outcome" where
  "aggregates df =
     (case aggregate1 df of
        Inl e \<Rightarrow> nothing\<lparr>cleaned := Some df, raised := Some e\<rparr>
      | Inr a1 \<Rightarrow>
          (case aggregate2 df of
             Inl e \<Rightarrow> nothing\<lparr>cleaned := Some df, agg1 := Some a1, raised := Some e\<rparr>
           | Inr a2 \<Rightarrow>
               (case aggregate3 df of
                  Inl e \<Rightarrow> nothing\<lparr>cleaned := Some df, agg1 := Some a1, agg2 := Some a2,
                                   raised := Some e\<rparr>
                | Inr a3 \<Rightarrow> \<lparr>cleaned = Some df, agg1 = Some a1, agg2 = Some a2, agg3 = a3,
                             raised = None\<rparr>)))"

text \<open>Stages 2 to 6: from the frame that was loaded to the frame that is saved.\<close>

definition clean :: "(f64 \<Rightarrow> string) \<Rightarrow> dataframe \<Rightarrow> error + dataframe" where
  "clean repr raw =
     (case normalize_headers raw of
        Inl e \<Rightarrow> Inl e
      | Inr d2 \<Rightarrow>
          (case fix_dates (clean_text d2) of
             Inl e \<Rightarrow> Inl e
           | Inr d4 \<Rightarrow>
               (case enforce_schema repr d4 of
                  Inl e \<Rightarrow> Inl e
                | Inr d5 \<Rightarrow> Inr (unique d5))))"

definition etl :: "(f64 \<Rightarrow> string) \<Rightarrow> dataframe \<Rightarrow> outcome" where
  "etl repr raw =
     (case clean repr raw of
        Inl e \<Rightarrow> nothing\<lparr>raised := Some e\<rparr>
      | Inr df \<Rightarrow> aggregates df)"

text \<open>
  A file read by \<^verbatim>\<open>pl.read_csv\<close> has no column of dates. From such a frame, stages 2
  to 6 end with an exception only when two headers normalize to one name.
\<close>

definition no_dates :: "dataframe \<Rightarrow> bool" where
  "no_dates df = (\<forall>(n, s) \<in> set df. dtype_of s \<noteq> DDate)"

text \<open>A frame whose columns of the target schema have the types of the schema.\<close>

definition typed :: "dataframe \<Rightarrow> bool" where
  "typed df =
     (\<forall>(col, t) \<in> set target_schema. \<forall>s. get_column df col = Some s \<longrightarrow> dtype_of s = t)"

section \<open>Properties of the header normalizer\<close>

lemma code_lt_256: "code c < 256"
  by (simp add: code_def)

lemma code_char_of: "n < 256 \<Longrightarrow> code (char_of n) = n"
  by (simp add: code_def)

lemma code_inj: "code c = code d \<longleftrightarrow> c = d"
  by (simp add: code_def)

lemma code_underscore: "code (CHR ''_'') = 95"
  by (simp add: code_def)

lemma code_to_lower: "code (to_lower c) = (if is_upper c then code c + 32 else code c)"
  by (simp add: to_lower_def is_upper_def code_char_of)

lemma underscore_iff: "c = CHR ''_'' \<longleftrightarrow> code c = 95"
  using code_inj [of c "CHR ''_''"] by (simp add: code_underscore)

lemma is_alnum_to_lower: "is_alnum (to_lower c) = is_alnum c"
  by (auto simp: is_alnum_def is_upper_def is_lower_def is_digit_def code_to_lower)

lemma is_word_to_lower: "is_word (to_lower c) = is_word c"
  by (auto simp: is_word_def is_alnum_to_lower underscore_iff code_to_lower is_upper_def)

lemma canonical_to_lower: "is_word c \<Longrightarrow> canonical_char (to_lower c)"
  by (auto simp: is_word_def is_alnum_def canonical_char_def underscore_iff code_to_lower is_upper_def is_lower_def is_digit_def)

lemma re_sub_set: "set (re_sub_nonword s) \<subseteq> {c \<in> set s. is_word c} \<union> {CHR ''_''}"
proof (induction s rule: re_sub_nonword.induct)
  case 1
  show ?case by simp
next
  case (2 c cs)
  show ?case
  proof (cases "is_word c")
    case True
    with 2 show ?thesis by auto
  next
    case False
    have "set (dropWhile (\<lambda>x. \<not> is_word x) cs) \<subseteq> set cs"
      by (simp add: set_dropWhileD subsetI)
    with False 2 show ?thesis by auto
  qed
qed

lemma re_sub_Nil: "re_sub_nonword s = [] \<longleftrightarrow> s = []"
  by (cases s) auto

lemma re_sub_hd: "re_sub_nonword (c # cs) \<noteq> [] \<and> hd (re_sub_nonword (c # cs)) = (if is_word c then c else CHR ''_'')"
  by simp

lemma re_sub_last: "s \<noteq> [] \<Longrightarrow> last (re_sub_nonword s) = (if is_word (last s) then last s else CHR ''_'')"
proof (induction s rule: re_sub_nonword.induct)
  case 1
  then show ?case by simp
next
  case (2 c cs)
  show ?case
  proof (cases "is_word c")
    case True
    with 2 show ?thesis by (cases cs) (auto simp: re_sub_Nil)
  next
    case False
    let ?r = "dropWhile (\<lambda>x. \<not> is_word x) cs"
    show ?thesis
    proof (cases "?r = []")
      case True
      then have "\<forall>x\<in>set cs. \<not> is_word x" by (simp add: dropWhile_eq_Nil_conv)
      then have "\<not> is_word (last (c # cs))" using False by (cases cs) auto
      moreover have "re_sub_nonword ?r = []" using True by (simp only: re_sub_nonword.simps)
      ultimately show ?thesis using False by (simp del: dropWhile_eq_Nil_conv)
    next
      case nonempty: False
      then have "cs \<noteq> []" by auto
      have "last ?r = last cs"
        using nonempty by (metis last_appendR takeWhile_dropWhile_id)
      with 2(2) False nonempty \<open>cs \<noteq> []\<close> show ?thesis by (simp add: re_sub_Nil)
    qed
  qed
qed


lemma not_alnum_underscore: "\<not> is_alnum (CHR ''_'')"
  by (simp add: is_alnum_def is_upper_def is_lower_def is_digit_def code_underscore)

text \<open>
  C4 (amended). For every ASCII column name that is not blank, the normalized header
  matches \<^verbatim>\<open>^[a-z0-9_]+$\<close>. It begins (ends) with an underscore exactly when the
  stripped name begins (ends) with a character that is not a letter or a digit: the
  substitution turns a leading or trailing run of non-word characters into an underscore
  and nothing removes it. The statement is for ASCII names, on which the character
  classes of this development are those of Python.
\<close>

theorem header_canonical:
  assumes "list_all is_ascii col" and "strip col \<noteq> []"
  shows "matches_canonical (normalize_header col)
       \<and> (leading_underscore (normalize_header col) \<longleftrightarrow> \<not> is_alnum (hd (strip col)))
       \<and> (trailing_underscore (normalize_header col) \<longleftrightarrow> \<not> is_alnum (last (strip col)))"
proof -
  let ?s = "lower (strip col)"
  have ne: "?s \<noteq> []" using assms(2) by (simp add: lower_def)
  have "set (re_sub_nonword ?s) \<subseteq> {c \<in> set ?s. is_word c} \<union> {CHR ''_''}"
    by (rule re_sub_set)
  moreover have "\<And>c. c \<in> set ?s \<Longrightarrow> is_word c \<Longrightarrow> canonical_char c"
    by (auto simp: lower_def is_word_to_lower canonical_to_lower)
  moreover have "canonical_char (CHR ''_'')" by (simp add: canonical_char_def)
  ultimately have "list_all canonical_char (re_sub_nonword ?s)"
    by (auto simp: list_all_iff)
  then have m: "matches_canonical (normalize_header col)"
    using ne by (simp add: matches_canonical_def normalize_header_def re_sub_Nil)
  obtain c cs where s: "?s = c # cs" using ne by (cases ?s) auto
  have hd: "hd ?s = to_lower (hd (strip col))"
    using assms(2) by (simp add: lower_def hd_map)
  have "leading_underscore (re_sub_nonword ?s) \<longleftrightarrow> \<not> is_alnum (hd ?s)"
    using s by (auto simp: leading_underscore_def is_word_def not_alnum_underscore)
  then have l: "leading_underscore (normalize_header col) \<longleftrightarrow> \<not> is_alnum (hd (strip col))"
    by (simp add: normalize_header_def hd is_alnum_to_lower)
  have la: "last ?s = to_lower (last (strip col))"
    using assms(2) by (simp add: lower_def last_map)
  have "re_sub_nonword ?s \<noteq> []" using ne by (simp add: re_sub_Nil)
  then have "trailing_underscore (re_sub_nonword ?s) \<longleftrightarrow> last (re_sub_nonword ?s) = CHR ''_''"
    by (cases "re_sub_nonword ?s" rule: rev_cases) (auto simp: trailing_underscore_def leading_underscore_def)
  also have "\<dots> \<longleftrightarrow> \<not> is_alnum (last ?s)"
    using re_sub_last [OF ne] by (auto simp: is_word_def not_alnum_underscore)
  finally have t: "trailing_underscore (normalize_header col) \<longleftrightarrow> \<not> is_alnum (last (strip col))"
    by (simp add: normalize_header_def la is_alnum_to_lower)
  from m l t show ?thesis by simp
qed

text \<open>The theorem at the header \<^verbatim>\<open>"  Trade Date "\<close>.\<close>

theorem header_canonical_witness:
  "list_all is_ascii ''  Trade Date '' \<and> strip ''  Trade Date '' \<noteq> [] \<and>
   matches_canonical (normalize_header ''  Trade Date '') \<and> normalize_header ''  Trade Date '' = ''trade_date''"
proof -
  have a: "list_all is_ascii ''  Trade Date ''" by code_simp
  have b: "strip ''  Trade Date '' \<noteq> []" by code_simp
  have c: "normalize_header ''  Trade Date '' = ''trade_date''" by code_simp
  from header_canonical [OF a b] a b c show ?thesis by simp
qed

text \<open>
  C4 as stated fails at the header \<^verbatim>\<open>"(Price)"\<close>, which becomes \<^verbatim>\<open>"_price_"\<close>.
\<close>

theorem header_pattern_counterexample:
  "\<not> (matches_canonical (normalize_header ''(Price)'')
       \<and> \<not> leading_underscore (normalize_header ''(Price)'')
       \<and> \<not> trailing_underscore (normalize_header ''(Price)''))"
  by code_simp




section \<open>Properties of frames\<close>

lemma columns_with_column:
  "columns (with_column n s df) = (if n \<in> set (columns df) then columns df else columns df @ [n])"
  by (auto simp: with_column_def columns_def intro!: map_idI split: prod.splits)

lemma set_columns_with_column:
  "n \<in> set (columns df) \<Longrightarrow> set (columns (with_column n s df)) = set (columns df)"
  by (simp add: columns_with_column)

lemma map_of_replace:
  "map_of (map (\<lambda>(m, t). if m = n then (m, s) else (m, t)) df) k =
     (if k = n then (if n \<in> fst ` set df then Some s else None) else map_of df k)"
  by (induction df) (force split: prod.splits)+

lemma get_column_with_column:
  "get_column (with_column n s df) k = (if k = n then Some s else get_column df k)"
proof (cases "n \<in> set (columns df)")
  case True
  then show ?thesis
    by (simp add: get_column_def with_column_def map_of_replace columns_def)
next
  case False
  then have "map_of df n = None"
    by (simp add: columns_def map_of_eq_None_iff)
  with False show ?thesis
    by (auto simp: get_column_def with_column_def map_add_def split: option.splits)
qed

lemma get_column_Some_columns:
  "get_column df k = Some s \<Longrightarrow> k \<in> set (columns df)"
  by (auto simp: get_column_def columns_def dest: map_of_SomeD intro: rev_image_eqI)

lemma get_column_None_columns:
  "get_column df k = None \<longleftrightarrow> k \<notin> set (columns df)"
  by (simp add: get_column_def columns_def map_of_eq_None_iff)

lemma with_column_twice:
  "n \<in> set (columns df) \<Longrightarrow> with_column n s (with_column n t df) = with_column n s df"
  by (auto simp: with_column_def columns_def split: prod.splits intro: rev_image_eqI)

lemma with_columns_replace:
  "distinct (map fst new) \<Longrightarrow> set (map fst new) \<subseteq> set (columns d) \<Longrightarrow>
   with_columns new d = map (\<lambda>(n, s). (n, case map_of new n of Some s' \<Rightarrow> s' | None \<Rightarrow> s)) d"
proof (induction new arbitrary: d)
  case Nil
  then show ?case by (simp add: with_columns_def)
next
  case (Cons a new)
  obtain n s where a: "a = (n, s)" by (cases a)
  have n_in: "n \<in> set (columns d)" using Cons.prems a by simp
  have n_new: "n \<notin> fst ` set new" using Cons.prems a by simp
  then have none: "map_of new n = None" by (simp add: map_of_eq_None_iff)
  have "with_columns (a # new) d = with_columns new (with_column n s d)"
    by (simp add: with_columns_def a)
  also have "\<dots> = map (\<lambda>(m, t). (m, case map_of new m of Some s' \<Rightarrow> s' | None \<Rightarrow> t)) (with_column n s d)"
    using Cons.prems n_in by (intro Cons.IH) (auto simp: columns_with_column a)
  also have "\<dots> = map (\<lambda>(m, t). (m, case map_of (a # new) m of Some s' \<Rightarrow> s' | None \<Rightarrow> t)) d"
    using n_in none by (auto simp: with_column_def a split: option.splits)
  finally show ?case .
qed

section \<open>Properties of the text normalizer\<close>

lemma clean_cols_subset: "fst ` set (clean_cols df) \<subseteq> fst ` set df"
proof (induction df rule: clean_cols.induct)
  case 1
  then show ?case by simp
next
  case (2 col s df)
  then show ?case by (cases s) force+
qed

lemma clean_cols_distinct: "distinct (map fst df) \<Longrightarrow> distinct (map fst (clean_cols df))"
proof (induction df rule: clean_cols.induct)
  case 1
  then show ?case by simp
next
  case (2 col s df)
  then have "col \<notin> fst ` set (clean_cols df)" using clean_cols_subset [of df] by auto
  with 2 show ?case by (cases s) simp_all
qed

lemma map_of_clean_cols:
  "distinct (map fst df) \<Longrightarrow>
   map_of (clean_cols df) n =
     (case map_of df n of Some (Utf8 xs) \<Rightarrow> Some (Utf8 (map clean_cell xs)) | _ \<Rightarrow> None)"
proof (induction df rule: clean_cols.induct)
  case 1
  then show ?case by simp
next
  case (2 col s df)
  then have "col \<notin> fst ` set (clean_cols df)" using clean_cols_subset [of df] by auto
  then have a: "map_of (clean_cols df) col = None" by (simp add: map_of_eq_None_iff)
  have b: "map_of df col = None" using "2.prems" by (simp add: map_of_eq_None_iff)
  show ?case
  proof (cases "n = col")
    case True
    with a b show ?thesis by (cases s) simp_all
  next
    case False
    with 2 show ?thesis by (cases s) simp_all
  qed
qed

lemma clean_text_map:
  assumes "distinct (columns df)"
  shows "clean_text df =
           map (\<lambda>(n, s). (n, case s of Utf8 xs \<Rightarrow> Utf8 (map clean_cell xs) | _ \<Rightarrow> s)) df"
proof -
  have d: "distinct (map fst df)" using assms by (simp add: columns_def)
  have "distinct (map fst (clean_cols df))"
    using d by (rule clean_cols_distinct)
  moreover have "set (map fst (clean_cols df)) \<subseteq> set (columns df)"
    using clean_cols_subset [of df] by (simp add: columns_def)
  ultimately have "clean_text df =
      map (\<lambda>(n, s). (n, case map_of (clean_cols df) n of Some s' \<Rightarrow> s' | None \<Rightarrow> s)) df"
    unfolding clean_text_def by (rule with_columns_replace)
  also have "\<dots> = map (\<lambda>(n, s). (n, case s of Utf8 xs \<Rightarrow> Utf8 (map clean_cell xs) | _ \<Rightarrow> s)) df"
  proof (rule map_cong [OF refl])
    fix x assume x: "x \<in> set df"
    obtain n s where ns: "x = (n, s)" by (cases x)
    have "map_of df n = Some s" using d x ns by simp
    then show "(case x of (n, s) \<Rightarrow> (n, case map_of (clean_cols df) n of Some s' \<Rightarrow> s' | None \<Rightarrow> s))
             = (case x of (n, s) \<Rightarrow> (n, case s of Utf8 xs \<Rightarrow> Utf8 (map clean_cell xs) | _ \<Rightarrow> s))"
      using d by (simp add: ns map_of_clean_cols split: series.splits)
  qed
  finally show ?thesis .
qed





section \<open>Properties of the date normalizer\<close>

lemma null_count_strptime_le: "null_count xs \<le> null_count (map (strptime_cell fmt) xs)"
  by (induction xs) (auto simp: null_count_def strptime_cell_def)

lemma null_count_strptime:
  "null_count (map (strptime_cell fmt) xs) = null_count xs \<longleftrightarrow>
     (\<forall>s. Some s \<in> set xs \<longrightarrow> parses fmt s)"
proof (induction xs)
  case Nil
  then show ?case by (simp add: null_count_def)
next
  case (Cons c xs)
  have le: "null_count xs \<le> null_count (map (strptime_cell fmt) xs)"
    by (rule null_count_strptime_le)
  show ?case
  proof (cases c)
    case None
    with Cons show ?thesis by (simp add: null_count_def strptime_cell_def)
  next
    case (Some s)
    show ?thesis
    proof (cases "parse_date fmt s")
      case None
      have "null_count (map (strptime_cell fmt) (c # xs)) = Suc (null_count (map (strptime_cell fmt) xs))"
        using Some None by (simp add: null_count_def strptime_cell_def)
      moreover have "null_count (c # xs) = null_count xs"
        using Some by (simp add: null_count_def)
      ultimately have "null_count (map (strptime_cell fmt) (c # xs)) \<noteq> null_count (c # xs)"
        using le by simp
      moreover have "\<not> (\<forall>s. Some s \<in> set (c # xs) \<longrightarrow> parses fmt s)"
        using Some None by (auto simp: parses_def)
      ultimately show ?thesis by simp
    next
      case (Some d)
      then have "parses fmt s" by (simp add: parses_def)
      with Some \<open>c = Some s\<close> Cons show ?thesis
        by (auto simp: null_count_def strptime_cell_def)
    qed
  qed
qed

lemma strptime_strict_eq:
  "strptime_strict fmt xs =
     (if \<forall>s. Some s \<in> set xs \<longrightarrow> parses fmt s
      then Inr (map (strptime_cell fmt) xs) else Inl ComputeError)"
  unfolding strptime_strict_def Let_def null_count_strptime by simp

lemma str_strptime_Utf8:
  "get_column df col = Some (Utf8 xs) \<Longrightarrow>
   str_strptime col fmt df =
     (if \<forall>s. Some s \<in> set xs \<longrightarrow> parses fmt s
      then Inr (with_column col (Date (map (strptime_cell fmt) xs)) df) else Inl ComputeError)"
  by (simp add: str_strptime_def strptime_strict_eq)

lemma try_formats_Utf8:
  assumes "get_column df col = Some (Utf8 xs)" and "fmts \<noteq> []"
  shows "try_formats fmts col df =
     (if \<forall>s. Some s \<in> set xs \<longrightarrow> parses ''%m/%d/%Y'' s
      then Inr (Some (with_column col (Date (map (strptime_cell ''%m/%d/%Y'') xs)) df))
      else Inr None)"
  using assms(2)
proof (induction fmts)
  case Nil
  then show ?case by simp
next
  case (Cons fmt fmts)
  show ?case
  proof (cases "fmts = []")
    case True
    then show ?thesis by (simp add: str_strptime_Utf8 [OF assms(1)])
  next
    case False
    with Cons show ?thesis by (simp add: str_strptime_Utf8 [OF assms(1)])
  qed
qed

lemma date_formats_nonempty: "date_formats \<noteq> []"
  by (simp add: date_formats_def)

lemma fix_date_column_Utf8:
  assumes "get_column df col = Some (Utf8 xs)"
  shows "fix_date_column col df =
     (if \<forall>s. Some s \<in> set xs \<longrightarrow> parses ''%m/%d/%Y'' s
      then Inr (with_column col
                 (Utf8 (map (map_option (format_date ''%Y-%m-%d''))
                         (map (strptime_cell ''%m/%d/%Y'') xs))) df)
      else Inr df)"
proof -
  let ?P = "\<forall>s. Some s \<in> set xs \<longrightarrow> parses ''%m/%d/%Y'' s"
  let ?parsed = "with_column col (Date (map (strptime_cell ''%m/%d/%Y'') xs)) df"
  have c: "col \<in> set (columns df)" using assms by (rule get_column_Some_columns)
  have t: "try_formats date_formats col df = (if ?P then Inr (Some ?parsed) else Inr None)"
    by (rule try_formats_Utf8 [OF assms date_formats_nonempty])
  show ?thesis
  proof (cases ?P)
    case True
    then have "try_formats date_formats col df = Inr (Some ?parsed)"
      using t by metis
    then have "fix_date_column col df = dt_strftime col ''%Y-%m-%d'' ?parsed"
      using assms by (simp add: fix_date_column_def)
    also have "\<dots> = Inr (with_column col
                 (Utf8 (map (map_option (format_date ''%Y-%m-%d''))
                         (map (strptime_cell ''%m/%d/%Y'') xs))) df)"
      using c by (simp add: dt_strftime_def get_column_with_column with_column_twice)
    finally show ?thesis using True by metis
  next
    case False
    then have "try_formats date_formats col df = Inr None"
      using t by metis
    then have "fix_date_column col df = Inr df"
      using assms by (simp add: fix_date_column_def)
    then show ?thesis using False by metis
  qed
qed



lemma fix_date_column_total:
  assumes "c \<in> set (columns df)"
  shows "\<exists>df'. fix_date_column c df = Inr df' \<and> columns df' = columns df"
proof -
  obtain s where g: "get_column df c = Some s"
    using assms get_column_None_columns [of df c] by (cases "get_column df c") auto
  show ?thesis
  proof (cases s)
    case (Utf8 xs)
    with g have "get_column df c = Some (Utf8 xs)" by simp
    from fix_date_column_Utf8 [OF this] assms show ?thesis
      by (auto simp: columns_with_column)
  qed (use g in \<open>simp_all add: fix_date_column_def\<close>)
qed



lemma fix_dates_never_raises: "\<exists>df'. fix_dates df = Inr df' \<and> columns df' = columns df"
proof -
  have "set cols \<subseteq> set (columns df) \<Longrightarrow> \<exists>df'. fix_date_loop cols df = Inr df' \<and> columns df' = columns df"
    for cols
  proof (induction cols arbitrary: df)
    case Nil
    then show ?case by simp
  next
    case (Cons c cols)
    then have "c \<in> set (columns df)" by simp
    from fix_date_column_total [OF this] obtain df1
      where s: "fix_date_column c df = Inr df1" and cs: "columns df1 = columns df" by blast
    have "set cols \<subseteq> set (columns df1)" using Cons.prems cs by simp
    from Cons.IH [OF this] s cs show ?case by auto
  qed
  then show ?thesis by (simp add: fix_dates_def date_cols_def)
qed




text \<open>
  C1. The specified loop and the loop of the program differ on a column in the layout
  \<^verbatim>\<open>%d/%m/%Y\<close>: the cell \<^verbatim>\<open>"13/01/2023"\<close> fails the first two candidates and matches the
  third, so the specified loop converts the column, while the program, which parses with
  \<^verbatim>\<open>%m/%d/%Y\<close> three times, leaves it as text.
\<close>

theorem date_layout_order_divergence:
  "spec_try_formats date_formats ''trade_date'' [(''trade_date'', Utf8 [Some ''13/01/2023''])]
     = Inr (Some [(''trade_date'', Date [Some (2023, 1, 13)])])
   \<and> try_formats date_formats ''trade_date'' [(''trade_date'', Utf8 [Some ''13/01/2023''])]
     = Inr None
   \<and> fix_dates [(''trade_date'', Utf8 [Some ''13/01/2023''])]
     = Inr [(''trade_date'', Utf8 [Some ''13/01/2023''])]"
  by code_simp


section \<open>Properties of deduplication\<close>

lemma first_occurrences_bound: "i \<in> set (first_occurrences rs) \<Longrightarrow> i < length rs"
  by (simp add: first_occurrences_def)

lemma first_occurrences_distinct: "distinct (first_occurrences rs)"
  by (simp add: first_occurrences_def)

lemma gather_first_occurrences_distinct: "distinct (gather (first_occurrences rs) rs)"
proof -
  have "inj_on (\<lambda>i. rs ! i) (set (first_occurrences rs))"
  proof (rule inj_onI)
    fix i j
    assume i: "i \<in> set (first_occurrences rs)" and j: "j \<in> set (first_occurrences rs)"
      and eq: "rs ! i = rs ! j"
    have il: "i < length rs" and jl: "j < length rs"
      using i j by (auto dest: first_occurrences_bound)
    have pi: "rs ! i \<notin> set (take i rs)" and pj: "rs ! j \<notin> set (take j rs)"
      using i j by (auto simp: first_occurrences_def)
    show "i = j"
    proof (rule ccontr)
      assume "i \<noteq> j"
      then consider "i < j" | "j < i" by linarith
      then show False
      proof cases
        case 1
        then have "rs ! i \<in> set (take j rs)"
          using jl by (auto simp: in_set_conv_nth intro!: exI [of _ i])
        with eq pj show False by simp
      next
        case 2
        then have "rs ! j \<in> set (take i rs)"
          using il by (auto simp: in_set_conv_nth intro!: exI [of _ j])
        with eq pi show False by simp
      qed
    qed
  qed
  then show ?thesis
    by (simp add: gather_def distinct_map first_occurrences_distinct)
qed

lemma gather_first_occurrences_set: "set (gather (first_occurrences rs) rs) = set rs"
proof
  show "set (gather (first_occurrences rs) rs) \<subseteq> set rs"
    by (auto simp: gather_def dest: first_occurrences_bound)
next
  have "i < length rs \<Longrightarrow> rs ! i \<in> set (gather (first_occurrences rs) rs)" for i
  proof (induction i rule: less_induct)
    case (less i)
    show ?case
    proof (cases "rs ! i \<in> set (take i rs)")
      case True
      then obtain j where "j < i" "rs ! j = rs ! i"
        using less.prems by (auto simp: in_set_conv_nth)
      with less show ?thesis by force
    next
      case False
      with less.prems have "i \<in> set (first_occurrences rs)"
        by (simp add: first_occurrences_def)
      then show ?thesis by (simp add: gather_def)
    qed
  qed
  then show "set rs \<subseteq> set (gather (first_occurrences rs) rs)"
    by (auto simp: in_set_conv_nth)
qed

lemma first_occurrences_of_distinct:
  assumes "distinct rs"
  shows "first_occurrences rs = [0..<length rs]"
proof -
  have "rs ! i \<notin> set (take i rs)" if "i < length rs" for i
  proof
    assume "rs ! i \<in> set (take i rs)"
    then obtain j where "j < i" "rs ! j = rs ! i"
      using that by (auto simp: in_set_conv_nth)
    with that assms show False by (simp add: nth_eq_iff_index_eq)
  qed
  then show ?thesis by (simp add: first_occurrences_def)
qed

lemma series_len_take: "series_len (take_series idxs s) = length idxs"
  by (cases s) (simp_all add: gather_def)

lemma cells_take:
  "\<forall>i \<in> set idxs. i < series_len s \<Longrightarrow> cells (take_series idxs s) = gather idxs (cells s)"
  by (cases s) (simp_all add: gather_def)

lemma length_cells: "length (cells s) = series_len s"
  by (cases s) simp_all

lemma gather_all: "gather [0..<length xs] xs = xs"
  by (simp add: gather_def map_nth)

lemma take_series_all: "take_series [0..<series_len s] s = s"
  by (cases s) (simp_all add: gather_all)

lemma height_take_rows: "df \<noteq> [] \<Longrightarrow> height (take_rows idxs df) = length idxs"
  by (cases df) (auto simp: height_def take_rows_def series_len_take)

lemma columns_take_rows: "columns (take_rows idxs df) = columns df"
  by (simp add: take_rows_def columns_def split_def)

lemma wf_take_rows: "wf_frame df \<Longrightarrow> wf_frame (take_rows idxs df)"
proof (cases "df = []")
  case True
  then show ?thesis by (simp add: take_rows_def wf_frame_def columns_def)
next
  case False
  assume "wf_frame df"
  then have "distinct (columns (take_rows idxs df))"
    by (simp add: columns_take_rows wf_frame_def)
  moreover have "list_all (\<lambda>(_, s). series_len s = height (take_rows idxs df)) (take_rows idxs df)"
    unfolding height_take_rows [OF False]
    by (auto simp: take_rows_def list_all_iff series_len_take)
  ultimately show ?thesis by (simp add: wf_frame_def)
qed

lemma take_rows_all:
  assumes "wf_frame df"
  shows "take_rows [0..<height df] df = df"
proof -
  have "(case x of (n, s) \<Rightarrow> (n, take_series [0..<height df] s)) = x" if "x \<in> set df" for x
  proof -
    obtain n s where x: "x = (n, s)" by (cases x)
    with that assms have "series_len s = height df"
      by (auto simp: wf_frame_def list_all_iff)
    then show ?thesis using take_series_all [of s] by (simp add: x)
  qed
  then show ?thesis by (simp add: take_rows_def map_idI)
qed

lemma row_take_rows:
  assumes "wf_frame df" and "\<forall>i \<in> set idxs. i < height df" and "k < length idxs"
  shows "row (take_rows idxs df) k = row df (idxs ! k)"
proof -
  have "cells (take_series idxs s) ! k = cells s ! (idxs ! k)" if "(n, s) \<in> set df" for n s
  proof -
    from that assms(1) have "series_len s = height df"
      by (auto simp: wf_frame_def list_all_iff)
    with assms(2) have "cells (take_series idxs s) = gather idxs (cells s)"
      by (intro cells_take) simp
    then show ?thesis using assms(3) by (simp add: gather_def)
  qed
  then show ?thesis
    by (auto simp: row_def take_rows_def)
qed

lemma rows_take_rows:
  assumes "wf_frame df" and "\<forall>i \<in> set idxs. i < height df" and "df \<noteq> []"
  shows "rows (take_rows idxs df) = gather idxs (rows df)"
proof (rule nth_equalityI)
  show "length (rows (take_rows idxs df)) = length (gather idxs (rows df))"
    by (simp add: rows_def gather_def height_take_rows [OF assms(3)])
next
  fix k assume "k < length (rows (take_rows idxs df))"
  then have k: "k < length idxs"
    by (simp add: rows_def height_take_rows [OF assms(3)])
  then have "idxs ! k < height df" using assms(2) by simp
  with k show "rows (take_rows idxs df) ! k = gather idxs (rows df) ! k"
    by (simp add: rows_def gather_def height_take_rows [OF assms(3)]
        row_take_rows [OF assms(1,2)])
qed

lemma length_rows: "length (rows df) = height df"
  by (simp add: rows_def)

lemma rows_unique:
  assumes "wf_frame df"
  shows "rows (unique df) = gather (first_occurrences (rows df)) (rows df)"
proof (cases "df = []")
  case True
  then show ?thesis
    by (simp add: unique_def take_rows_def rows_def height_def gather_def first_occurrences_def)
next
  case False
  have "\<forall>i \<in> set (first_occurrences (rows df)). i < height df"
    using first_occurrences_bound [of _ "rows df"] by (simp add: length_rows)
  from rows_take_rows [OF assms this False] show ?thesis by (simp add: unique_def)
qed

text \<open>
  C9. After deduplication no two rows of a frame are equal in every column, no row is
  lost, and deduplicating the result again changes nothing (in this description, which
  fixes the order of the surviving rows, the frame itself is the same; so is, a
  fortiori, its set of rows).
\<close>

theorem unique_distinct_idempotent:
  assumes "wf_frame df"
  shows "distinct (rows (unique df))
       \<and> set (rows (unique df)) = set (rows df)
       \<and> unique (unique df) = unique df
       \<and> set (rows (unique (unique df))) = set (rows (unique df))"
proof -
  have r: "rows (unique df) = gather (first_occurrences (rows df)) (rows df)"
    using assms by (rule rows_unique)
  have d: "distinct (rows (unique df))"
    unfolding r by (rule gather_first_occurrences_distinct)
  have s: "set (rows (unique df)) = set (rows df)"
    unfolding r by (rule gather_first_occurrences_set)
  have w: "wf_frame (unique df)"
    unfolding unique_def using assms by (rule wf_take_rows)
  have "first_occurrences (rows (unique df)) = [0..<height (unique df)]"
    using first_occurrences_of_distinct [OF d] by (simp add: length_rows)
  then have i: "unique (unique df) = unique df"
    using take_rows_all [OF w] by (simp add: unique_def [of "unique df"])
  from d s i show ?thesis by simp
qed

text \<open>The theorem on a frame of four rows, two of them equal.\<close>

theorem unique_distinct_idempotent_witness:
  "wf_frame [(''ticker'', Utf8 [Some ''a'', Some ''a'', None, Some ''a'']),
             (''volume'', Int64 [Some 1, Some 1, None, Some 2])]
   \<and> unique [(''ticker'', Utf8 [Some ''a'', Some ''a'', None, Some ''a'']),
             (''volume'', Int64 [Some 1, Some 1, None, Some 2])]
       = [(''ticker'', Utf8 [Some ''a'', None, Some ''a'']),
          (''volume'', Int64 [Some 1, None, Some 2])]
   \<and> distinct (rows (unique [(''ticker'', Utf8 [Some ''a'', Some ''a'', None, Some ''a'']),
             (''volume'', Int64 [Some 1, Some 1, None, Some 2])]))
   \<and> unique (unique [(''ticker'', Utf8 [Some ''a'', Some ''a'', None, Some ''a'']),
             (''volume'', Int64 [Some 1, Some 1, None, Some 2])])
       = unique [(''ticker'', Utf8 [Some ''a'', Some ''a'', None, Some ''a'']),
             (''volume'', Int64 [Some 1, Some 1, None, Some 2])]"
proof -
  let ?df = "[(''ticker'', Utf8 [Some ''a'', Some ''a'', None, Some ''a'']),
             (''volume'', Int64 [Some 1, Some 1, None, Some 2])]"
  have w: "wf_frame ?df" by code_simp
  have u: "unique ?df = [(''ticker'', Utf8 [Some ''a'', None, Some ''a'']),
          (''volume'', Int64 [Some 1, None, Some 2])]" by code_simp
  from unique_distinct_idempotent [OF w] w u show ?thesis by simp
qed


section \<open>Properties of the aggregates\<close>

lemma get_column_take_rows:
  "get_column (take_rows idxs df) n = map_option (take_series idxs) (get_column df n)"
  by (simp add: get_column_def take_rows_def map_of_map)

lemma select_missing:
  "n \<in> set ns \<Longrightarrow> get_column df n = None \<Longrightarrow> select ns df = Inl ColumnNotFoundError"
proof (induction ns)
  case Nil
  then show ?case by simp
next
  case (Cons a ns)
  show ?case
  proof (cases "get_column df a")
    case None
    then show ?thesis by simp
  next
    case (Some s)
    with Cons have "n \<in> set ns" by auto
    with Cons Some show ?thesis by simp
  qed
qed

lemma filter_not_null_columns:
  "filter_not_null col df = Inr d \<Longrightarrow> columns d = columns df"
  by (auto simp: filter_not_null_def columns_take_rows split: option.splits)

lemma group_by_mean_missing:
  "n \<in> set keys \<Longrightarrow> n \<notin> set (columns d) \<Longrightarrow>
   group_by_mean keys val name d = Inl ColumnNotFoundError"
  using select_missing [of n keys d]
  by (simp add: group_by_mean_def get_column_None_columns)

lemma aggregate1_missing:
  assumes "\<not> {''ticker'', ''trade_date'', ''close_price''} \<subseteq> set (columns df)"
  shows "aggregate1 df = Inl ColumnNotFoundError"
proof (cases "filter_not_null ''close_price'' df")
  case (Inl e)
  then have "e = ColumnNotFoundError"
    by (auto simp: filter_not_null_def split: option.splits)
  with Inl show ?thesis by (simp add: aggregate1_def)
next
  case (Inr d)
  then have c: "columns d = columns df" by (rule filter_not_null_columns)
  from Inr have "''close_price'' \<in> set (columns df)"
    by (auto simp: filter_not_null_def split: option.splits dest: get_column_Some_columns)
  with assms have "''ticker'' \<notin> set (columns d) \<or> ''trade_date'' \<notin> set (columns d)"
    using c by auto
  then have "group_by_mean [''trade_date'', ''ticker''] ''close_price'' ''avg_close'' d
               = Inl ColumnNotFoundError"
    using group_by_mean_missing [of "''ticker''" "[''trade_date'', ''ticker'']" d]
      group_by_mean_missing [of "''trade_date''" "[''trade_date'', ''ticker'']" d]
    by auto
  with Inr show ?thesis by (simp add: aggregate1_def)
qed

text \<open>
  C7 (amended). When one of the columns \<^verbatim>\<open>ticker\<close>, \<^verbatim>\<open>trade_date\<close>, \<^verbatim>\<open>close_price\<close> is
  absent from the cleaned frame, the block of Aggregate 3 is skipped by its guard: it
  raises nothing and writes nothing. Aggregate 1 needs the same three columns and has no
  guard: it raises \<open>ColumnNotFoundError\<close>, and the run ends there, after the cleaned
  frame and before any aggregate is written.
\<close>

theorem aggregate3_guard:
  assumes "\<not> {''ticker'', ''trade_date'', ''close_price''} \<subseteq> set (columns df)"
  shows "aggregate3 df = Inr None
       \<and> aggregate1 df = Inl ColumnNotFoundError
       \<and> aggregates df = \<lparr>cleaned = Some df, agg1 = None, agg2 = None, agg3 = None,
                            raised = Some ColumnNotFoundError\<rparr>"
proof -
  have "aggregate3 df = Inr None"
    using assms unfolding aggregate3_def by (simp only: if_False)
  moreover have a: "aggregate1 df = Inl ColumnNotFoundError"
    using assms by (rule aggregate1_missing)
  moreover have "aggregates df = \<lparr>cleaned = Some df, agg1 = None, agg2 = None, agg3 = None,
                            raised = Some ColumnNotFoundError\<rparr>"
    by (simp add: aggregates_def a nothing_def)
  ultimately show ?thesis by simp
qed

text \<open>The theorem on a cleaned frame without the column \<^verbatim>\<open>ticker\<close>.\<close>

theorem aggregate3_guard_witness:
  "\<not> {''ticker'', ''trade_date'', ''close_price''}
        \<subseteq> set (columns [(''trade_date'', Utf8 [Some ''2023-01-02'']),
                         (''close_price'', Float64 [Some (Fin 100)])])
   \<and> aggregate3 [(''trade_date'', Utf8 [Some ''2023-01-02'']),
                 (''close_price'', Float64 [Some (Fin 100)])] = Inr None
   \<and> aggregate1 [(''trade_date'', Utf8 [Some ''2023-01-02'']),
                 (''close_price'', Float64 [Some (Fin 100)])] = Inl ColumnNotFoundError"
proof -
  let ?df = "[(''trade_date'', Utf8 [Some ''2023-01-02'']),
              (''close_price'', Float64 [Some (Fin 100)])]"
  have h: "\<not> {''ticker'', ''trade_date'', ''close_price''} \<subseteq> set (columns ?df)"
    by (simp add: columns_def)
  from aggregate3_guard [OF h] h show ?thesis by simp
qed

text \<open>
  C7 as stated fails on a cleaned frame without a close price: stage 7 ends in
  Aggregate 1 with \<open>ColumnNotFoundError\<close>, and Aggregates 1 and 2 are not produced.
\<close>

theorem missing_column_counterexample:
  "aggregates [(''ticker'', Utf8 [Some ''aapl'']), (''trade_date'', Utf8 [Some ''2023-01-02'']),
               (''volume'', Int64 [Some 100]), (''sector'', Utf8 [Some ''tech''])]
   = \<lparr>cleaned = Some [(''ticker'', Utf8 [Some ''aapl'']),
                      (''trade_date'', Utf8 [Some ''2023-01-02'']),
                      (''volume'', Int64 [Some 100]), (''sector'', Utf8 [Some ''tech''])],
      agg1 = None, agg2 = None, agg3 = None, raised = Some ColumnNotFoundError\<rparr>"
  by code_simp

text \<open>
  That frame is what cleaning makes of a file without a close price, and the whole run
  ends in the same way. No float column is cast to text in this run, so the text of
  floats, here empty, plays no part.
\<close>

lemma missing_column_run:
  "etl (\<lambda>x. [])
     [(''Ticker'', Utf8 [Some ''AAPL'']), (''Trade Date'', Utf8 [Some ''01/02/2023'']),
      (''Volume'', Int64 [Some 100]), (''Sector'', Utf8 [Some ''Tech''])]
   = \<lparr>cleaned = Some [(''ticker'', Utf8 [Some ''aapl'']),
                      (''trade_date'', Utf8 [Some ''2023-01-02'']),
                      (''volume'', Int64 [Some 100]), (''sector'', Utf8 [Some ''tech''])],
      agg1 = None, agg2 = None, agg3 = None, raised = Some ColumnNotFoundError\<rparr>"
  by code_simp


lemma infer_format_error: "infer_format xs = Inl e \<Longrightarrow> e = ComputeError"
  by (auto simp: infer_format_def split: list.splits option.splits)





text \<open>
  That frame is what cleaning makes of a file with these dates: the column survives as
  text, and the whole run ends in the same way. No float column is cast to text in this
  run.
\<close>

lemma unparsed_date_run:
  "etl (\<lambda>x. [])
     [(''Ticker'', Utf8 [Some ''AAPL'', Some ''AAPL'']),
      (''Trade Date'', Utf8 [Some ''soon'', Some ''01/02/2023'']),
      (''Close Price'', Float64 [Some (Fin 100), Some (Fin 110)]),
      (''Volume'', Int64 [Some 7, Some 9]),
      (''Sector'', Utf8 [Some ''Tech'', Some ''Tech''])]
   = aggregates [(''ticker'', Utf8 [Some ''aapl'', Some ''aapl'']),
               (''trade_date'', Utf8 [Some ''soon'', Some ''01/02/2023'']),
               (''close_price'', Float64 [Some (Fin 100), Some (Fin 110)]),
               (''volume'', Int64 [Some 7, Some 9]),
               (''sector'', Utf8 [Some ''tech'', Some ''tech''])]"
  by code_simp


section \<open>Properties of the schema stage\<close>

lemma get_column_with_columns:
  "distinct (map fst new) \<Longrightarrow>
   get_column (with_columns new d) k =
     (case map_of new k of Some s \<Rightarrow> Some s | None \<Rightarrow> get_column d k)"
proof (induction new arbitrary: d)
  case Nil
  then show ?case by (simp add: with_columns_def)
next
  case (Cons a new)
  obtain n s where a: "a = (n, s)" by (cases a)
  have w: "with_columns (a # new) d = with_columns new (with_column n s d)"
    by (simp add: with_columns_def a)
  have none: "map_of new n = None"
    using Cons.prems a by (simp add: map_of_eq_None_iff)
  have d: "distinct (map fst new)" using Cons.prems by simp
  show ?case
    unfolding w Cons.IH [OF d] using none
    by (simp add: a get_column_with_column split: option.splits)
qed

lemma columns_with_columns:
  "set (map fst new) \<subseteq> set (columns d) \<Longrightarrow> columns (with_columns new d) = columns d"
proof (induction new arbitrary: d)
  case Nil
  then show ?case by (simp add: with_columns_def)
next
  case (Cons a new)
  obtain n s where a: "a = (n, s)" by (cases a)
  have w: "with_columns (a # new) d = with_columns new (with_column n s d)"
    by (simp add: with_columns_def a)
  have c: "columns (with_column n s d) = columns d"
    using Cons.prems a by (simp add: columns_with_column)
  with Cons show ?case unfolding w by simp
qed

lemma cast_ok:
  assumes "dtype_of s \<noteq> DDate" and "t = DUtf8 \<or> t = DFloat64 \<or> t = DInt64"
  shows "\<exists>s'. cast repr t s = Inr s' \<and> dtype_of s' = t \<and> series_len s' = series_len s"
  using assms by (cases s; cases t) simp_all

lemma target_schema_types:
  "(col, t) \<in> set target_schema \<Longrightarrow> t = DUtf8 \<or> t = DFloat64 \<or> t = DInt64"
  by (auto simp: target_schema_def)

lemma target_schema_distinct: "distinct (map fst target_schema)"
  by (simp add: target_schema_def)

lemma casted_total:
  assumes "\<forall>(n, s) \<in> set df. dtype_of s \<noteq> DDate"
    and "\<forall>(col, t) \<in> set schema. t = DUtf8 \<or> t = DFloat64 \<or> t = DInt64"
  shows "\<exists>cs. casted repr schema df = Inr cs"
  using assms(2)
proof (induction schema)
  case Nil
  then show ?case by simp
next
  case (Cons a schema)
  obtain col t where a: "a = (col, t)" by (cases a)
  from Cons obtain cs where cs: "casted repr schema df = Inr cs" by auto
  show ?case
  proof (cases "get_column df col")
    case None
    with cs a show ?thesis by simp
  next
    case (Some s)
    then have "(col, s) \<in> set df" by (simp add: get_column_def map_of_SomeD)
    with assms(1) have "dtype_of s \<noteq> DDate" by auto
    moreover have "t = DUtf8 \<or> t = DFloat64 \<or> t = DInt64" using Cons.prems a by simp
    ultimately obtain s' where "cast repr t s = Inr s'" using cast_ok by blast
    with Some cs a show ?thesis by simp
  qed
qed

lemma casted_names: "casted repr schema df = Inr cs \<Longrightarrow>
    map fst cs = filter (\<lambda>n. n \<in> set (columns df)) (map fst schema)"
proof (induction schema arbitrary: cs)
  case Nil
  then show ?case by simp
next
  case (Cons a schema)
  obtain col t where a: "a = (col, t)" by (cases a)
  show ?case
  proof (cases "get_column df col")
    case None
    then have "col \<notin> set (columns df)" by (simp add: get_column_None_columns)
    with Cons None a show ?thesis by simp
  next
    case (Some s)
    then have "col \<in> set (columns df)" by (rule get_column_Some_columns)
    with Cons Some a show ?thesis
      by (auto split: sum.splits)
  qed
qed

lemma casted_lookup:
  assumes "casted repr schema df = Inr cs" and "distinct (map fst schema)"
  shows "map_of cs col =
     (case map_of schema col of
        None \<Rightarrow> None
      | Some t \<Rightarrow> (case get_column df col of
                     None \<Rightarrow> None
                   | Some s \<Rightarrow> (case cast repr t s of Inr s' \<Rightarrow> Some s' | Inl e \<Rightarrow> None)))"
  using assms
proof (induction schema arbitrary: cs)
  case Nil
  then show ?case by simp
next
  case (Cons a schema)
  obtain c t where a: "a = (c, t)" by (cases a)
  have nc: "map_of schema c = None"
    using Cons.prems(2) a by (simp add: map_of_eq_None_iff)
  have d: "distinct (map fst schema)" using Cons.prems(2) by simp
  show ?case
  proof (cases "get_column df c")
    case None
    with Cons.prems(1) a have "casted repr schema df = Inr cs" by simp
    from Cons.IH [OF this d] None nc show ?thesis by (auto simp: a)
  next
    case (Some s)
    with Cons.prems(1) a obtain s' cs' where
      c: "cast repr t s = Inr s'" and r: "casted repr schema df = Inr cs'" and e: "cs = (c, s') # cs'"
      by (auto split: sum.splits)
    from Cons.IH [OF r d] Some c nc show ?thesis by (auto simp: a e)
  qed
qed

lemma enforce_schema_column:
  assumes "enforce_schema repr df = Inr df'"
  shows "get_column df' col =
     (case map_of target_schema col of
        None \<Rightarrow> get_column df col
      | Some t \<Rightarrow> (case get_column df col of
                     None \<Rightarrow> None
                   | Some s \<Rightarrow> (case cast repr t s of Inr s' \<Rightarrow> Some s' | Inl e \<Rightarrow> None)))"
    and "columns df' = columns df"
proof -
  from assms obtain cs where cs: "casted repr target_schema df = Inr cs"
    and df': "df' = with_columns cs df"
    by (auto simp: enforce_schema_def split: sum.splits)
  have n: "map fst cs = filter (\<lambda>n. n \<in> set (columns df)) (map fst target_schema)"
    using cs by (rule casted_names)
  then have d: "distinct (map fst cs)" using target_schema_distinct by simp
  have l: "map_of cs col =
     (case map_of target_schema col of
        None \<Rightarrow> None
      | Some t \<Rightarrow> (case get_column df col of
                     None \<Rightarrow> None
                   | Some s \<Rightarrow> (case cast repr t s of Inr s' \<Rightarrow> Some s' | Inl e \<Rightarrow> None)))"
    using cs target_schema_distinct by (rule casted_lookup)
  have ok: "\<exists>s'. cast repr t s = Inr s'"
    if "map_of target_schema col = Some t" "get_column df col = Some s" for t s
  proof (rule ccontr)
    assume "\<not> (\<exists>s'. cast repr t s = Inr s')"
    then obtain e where "cast repr t s = Inl e" by (cases "cast repr t s") auto
    with l that have "map_of cs col = None" by simp
    then have "col \<notin> set (map fst cs)" by (simp add: map_of_eq_None_iff)
    moreover have "col \<in> set (columns df)" using that(2) by (rule get_column_Some_columns)
    moreover have "col \<in> set (map fst target_schema)"
      using that(1) by (metis map_of_eq_None_iff option.distinct(1) set_map)
    ultimately show False using n by simp
  qed
  show "get_column df' col =
     (case map_of target_schema col of
        None \<Rightarrow> get_column df col
      | Some t \<Rightarrow> (case get_column df col of
                     None \<Rightarrow> None
                   | Some s \<Rightarrow> (case cast repr t s of Inr s' \<Rightarrow> Some s' | Inl e \<Rightarrow> None)))"
    unfolding df' get_column_with_columns [OF d] l
    using ok by (fastforce split: option.splits sum.splits)
  have "set (map fst cs) \<subseteq> set (columns df)" using n by auto
  then show "columns df' = columns df" unfolding df' by (rule columns_with_columns)
qed

lemma cast_dtype: "cast repr t s = Inr s' \<Longrightarrow> dtype_of s' = t \<and> series_len s' = series_len s"
  by (cases s; cases t) auto

lemma enforce_schema_total:
  assumes "\<forall>(n, s) \<in> set df. dtype_of s \<noteq> DDate"
  shows "\<exists>df'. enforce_schema repr df = Inr df'"
proof -
  have "\<forall>(col, t) \<in> set target_schema. t = DUtf8 \<or> t = DFloat64 \<or> t = DInt64"
    using target_schema_types by auto
  from casted_total [OF assms this, of repr] obtain cs
    where "casted repr target_schema df = Inr cs" by blast
  then show ?thesis by (simp add: enforce_schema_def)
qed












section \<open>Properties of the daily return\<close>

lemma length_shift1: "length (shift1 g) = length g"
  by (simp add: shift1_def)



lemma length_return_expr: "length (return_expr g) = length g"
  by (simp add: return_expr_def length_shift1)















text \<open>
  The same rows through a whole run, from a file with the dates written as in the
  specification: the date stage leaves them as text (they are not in the layout
  \<^verbatim>\<open>%m/%d/%Y\<close>), and Aggregate 3 reads them under the layout it infers.
\<close>

lemma daily_return_run:
  "agg3 (etl (\<lambda>x. [])
     [(''Ticker'', Utf8 [Some ''AAPL'', Some ''AAPL'']),
      (''Trade Date'', Utf8 [Some ''2023-01-01'', Some ''2023-01-02'']),
      (''Close Price'', Int64 [Some 100, Some 110]),
      (''Volume'', Int64 [Some 7, Some 9]),
      (''Sector'', Utf8 [Some ''Tech'', Some ''Tech''])])
   = Some [(''trade_date'', Date [Some (2023, 1, 2)]),
           (''ticker'', Utf8 [Some ''aapl'']),
           (''return'', Float64 [Some (Fin (1 / 10))])]"
  by code_simp


section \<open>The branches that are not reached\<close>

lemma no_dates_with_column:
  "no_dates df \<Longrightarrow> dtype_of s \<noteq> DDate \<Longrightarrow> no_dates (with_column n s df)"
  by (auto simp: no_dates_def with_column_def split: if_splits)

lemma fix_date_column_no_dates:
  assumes "no_dates df" and "fix_date_column c df = Inr df'"
  shows "no_dates df'"
proof (cases "get_column df c")
  case None
  with assms show ?thesis by (simp add: fix_date_column_def)
next
  case (Some s)
  show ?thesis
  proof (cases s)
    case (Utf8 xs)
    with Some have g: "get_column df c = Some (Utf8 xs)" by simp
    from assms(2) show ?thesis
      unfolding fix_date_column_Utf8 [OF g]
      using assms(1) by (auto split: if_splits intro: no_dates_with_column)
  qed (use assms Some in \<open>simp_all add: fix_date_column_def\<close>)
qed

lemma fix_date_loop_no_dates:
  "no_dates df \<Longrightarrow> fix_date_loop cols df = Inr df' \<Longrightarrow> no_dates df'"
proof (induction cols arbitrary: df)
  case Nil
  then show ?case by simp
next
  case (Cons c cols)
  then show ?case
    by (auto split: sum.splits dest: fix_date_column_no_dates)
qed

lemma clean_text_no_dates:
  assumes "distinct (columns df)" and "no_dates df"
  shows "no_dates (clean_text df)" and "columns (clean_text df) = columns df"
  using assms(2) unfolding clean_text_map [OF assms(1)]
  by (auto simp: no_dates_def columns_def split: series.splits)

lemma clean_total:
  assumes "no_dates raw" and "distinct (map normalize_header (columns raw))"
  shows "\<exists>df. clean repr raw = Inr df"
proof -
  let ?d2 = "map (\<lambda>(n, s). (normalize_header n, s)) raw"
  have c2: "columns ?d2 = map normalize_header (columns raw)"
    by (simp add: columns_def split_def)
  have n2: "normalize_headers raw = Inr ?d2"
    using assms(2) by (simp add: normalize_headers_def rename_def c2)
  have "no_dates ?d2" using assms(1) by (auto simp: no_dates_def)
  then have nd3: "no_dates (clean_text ?d2)"
    using assms(2) c2 by (intro clean_text_no_dates) simp_all
  obtain d4 where d4: "fix_dates (clean_text ?d2) = Inr d4"
    using fix_dates_never_raises by blast
  then have "no_dates d4"
    using nd3 fix_date_loop_no_dates by (simp add: fix_dates_def)
  then obtain d5 where "enforce_schema repr d4 = Inr d5"
    using enforce_schema_total [of d4 repr] by (auto simp: no_dates_def)
  with n2 d4 show ?thesis by (simp add: clean_def)
qed

lemma enforce_schema_typed:
  assumes "enforce_schema repr df = Inr df'"
  shows "typed df'"
  unfolding typed_def
proof (intro ballI, clarify)
  fix col t s
  assume m: "(col, t) \<in> set target_schema" and g: "get_column df' col = Some s"
  have "map_of target_schema col = Some t"
    using m target_schema_distinct by simp
  with g show "dtype_of s = t"
    unfolding enforce_schema_column(1) [OF assms]
    by (auto split: option.splits sum.splits dest: cast_dtype)
qed

lemma dtype_take_series: "dtype_of (take_series idxs s) = dtype_of s"
  by (cases s) simp_all

lemma typed_take_rows: "typed df \<Longrightarrow> typed (take_rows idxs df)"
  by (auto simp: typed_def get_column_take_rows dtype_take_series)

lemma typed_column:
  "typed df \<Longrightarrow> (col, t) \<in> set target_schema \<Longrightarrow> get_column df col = Some s
   \<Longrightarrow> dtype_of s = t"
  by (auto simp: typed_def)

lemma typed_columns:
  assumes "typed df"
  shows "get_column df ''close_price'' = Some s \<Longrightarrow> \<exists>xs. s = Float64 xs"
    and "get_column df ''volume'' = Some s \<Longrightarrow> \<exists>xs. s = Int64 xs"
    and "get_column df ''ticker'' = Some s \<Longrightarrow> \<exists>xs. s = Utf8 xs"
    and "get_column df ''trade_date'' = Some s \<Longrightarrow> \<exists>xs. s = Utf8 xs"
proof -
  show "get_column df ''close_price'' = Some s \<Longrightarrow> \<exists>xs. s = Float64 xs"
    using typed_column [OF assms, of "''close_price''" DFloat64 s]
    by (cases s) (simp_all add: target_schema_def)
  show "get_column df ''volume'' = Some s \<Longrightarrow> \<exists>xs. s = Int64 xs"
    using typed_column [OF assms, of "''volume''" DInt64 s]
    by (cases s) (simp_all add: target_schema_def)
  show "get_column df ''ticker'' = Some s \<Longrightarrow> \<exists>xs. s = Utf8 xs"
    using typed_column [OF assms, of "''ticker''" DUtf8 s]
    by (cases s) (simp_all add: target_schema_def)
  show "get_column df ''trade_date'' = Some s \<Longrightarrow> \<exists>xs. s = Utf8 xs"
    using typed_column [OF assms, of "''trade_date''" DUtf8 s]
    by (cases s) (simp_all add: target_schema_def)
qed

lemma select_error: "select ns df = Inl e \<Longrightarrow> e = ColumnNotFoundError"
  by (induction ns arbitrary: e) (auto split: option.splits sum.splits)

lemma mean_groups_numeric:
  "dtype_of s = DFloat64 \<or> dtype_of s = DInt64 \<Longrightarrow> \<exists>ms. mean_groups s gs = Inr ms"
proof (induction gs)
  case Nil
  then show ?case by simp
next
  case (Cons g gs)
  then obtain ms where "mean_groups s gs = Inr ms" by blast
  moreover have "\<exists>m. mean_series (take_series g s) = Inr m"
    using Cons.prems by (cases s) (simp_all add: mean_series_def)
  ultimately show ?case by auto
qed

lemma group_by_mean_error:
  assumes "group_by_mean keys val name d = Inl e"
    and "\<And>s. get_column d val = Some s \<Longrightarrow> dtype_of s = DFloat64 \<or> dtype_of s = DInt64"
  shows "e = ColumnNotFoundError"
proof (cases "select keys d")
  case (Inl e')
  with assms(1) select_error [OF Inl] show ?thesis by (simp add: group_by_mean_def)
next
  case (Inr kdf)
  show ?thesis
  proof (cases "get_column d val")
    case None
    with Inr assms(1) show ?thesis by (simp add: group_by_mean_def)
  next
    case (Some s)
    from mean_groups_numeric [OF assms(2) [OF Some]] Some Inr assms(1) show ?thesis
      by (auto simp: group_by_mean_def Let_def split: sum.splits) (metis Inl_Inr_False)
  qed
qed

lemma aggregate1_error:
  assumes "typed df" and "aggregate1 df = Inl e"
  shows "e = ColumnNotFoundError"
proof (cases "filter_not_null ''close_price'' df")
  case (Inl e')
  with assms(2) show ?thesis
    by (auto simp: aggregate1_def filter_not_null_def split: option.splits)
next
  case (Inr d)
  then have "d = take_rows (filter (\<lambda>i. cells (the (get_column df ''close_price'')) ! i \<noteq> None)
                     [0..<height df]) df"
    by (auto simp: filter_not_null_def split: option.splits)
  then have "typed d" using assms(1) typed_take_rows by simp
  then have "\<And>s. get_column d ''close_price'' = Some s
               \<Longrightarrow> dtype_of s = DFloat64 \<or> dtype_of s = DInt64"
    using typed_columns(1) by fastforce
  moreover have "group_by_mean [''trade_date'', ''ticker''] ''close_price'' ''avg_close'' d = Inl e"
    using assms(2) Inr by (simp add: aggregate1_def)
  ultimately show ?thesis by (intro group_by_mean_error)
qed

lemma aggregate2_error:
  assumes "typed df" and "aggregate2 df = Inl e"
  shows "e = ColumnNotFoundError"
proof (cases "filter_not_null ''volume'' df")
  case (Inl e')
  with assms(2) show ?thesis
    by (auto simp: aggregate2_def filter_not_null_def split: option.splits)
next
  case (Inr d)
  then have "d = take_rows (filter (\<lambda>i. cells (the (get_column df ''volume'')) ! i \<noteq> None)
                     [0..<height df]) df"
    by (auto simp: filter_not_null_def split: option.splits)
  then have "typed d" using assms(1) typed_take_rows by simp
  then have "\<And>s. get_column d ''volume'' = Some s
               \<Longrightarrow> dtype_of s = DFloat64 \<or> dtype_of s = DInt64"
    using typed_columns(2) by fastforce
  moreover have "group_by_mean [''sector''] ''volume'' ''avg_volume'' d = Inl e"
    using assms(2) Inr by (simp add: aggregate2_def)
  ultimately show ?thesis by (intro group_by_mean_error)
qed

lemma aggregate3_error:
  assumes "typed df" and "aggregate3 df = Inl e"
  shows "e = ComputeError"
proof -
  have cols: "{''ticker'', ''trade_date'', ''close_price''} \<subseteq> set (columns df)"
    using assms(2) by (auto simp: aggregate3_def split: if_splits)
  then obtain st sd sc where g: "get_column df ''ticker'' = Some st"
    "get_column df ''trade_date'' = Some sd" "get_column df ''close_price'' = Some sc"
    using get_column_None_columns [of df] by (metis insert_subset not_Some_eq)
  from typed_columns [OF assms(1)] g obtain ts xs cs
    where t: "st = Utf8 ts" "sd = Utf8 xs" "sc = Float64 cs" by blast
  show ?thesis
  proof (cases "str_strptime_infer ''trade_date'' df")
    case (Inl e')
    then have "e' = ComputeError"
      using g(2) t(2)
      by (auto simp: str_strptime_infer_def strptime_strict_eq
          split: sum.splits if_splits dest: infer_format_error)
    with Inl assms(2) cols show ?thesis by (simp add: aggregate3_def)
  next
    case (Inr d)
    then obtain ds where d: "d = with_column ''trade_date'' (Date ds) df"
      using g(2) t(2) by (auto simp: str_strptime_infer_def split: sum.splits)
    let ?perm = "sort_key (\<lambda>i. (ts ! i, ds ! i)) [0..<height d]"
    let ?tmp = "take_rows ?perm d"
    have s2: "sort_ticker_date d = Inr ?tmp"
      using g t by (simp add: sort_ticker_date_def d get_column_with_column)
    have "\<exists>tmp'. with_return ?tmp = Inr tmp'
            \<and> get_column tmp' ''trade_date'' \<noteq> None
            \<and> get_column tmp' ''ticker'' \<noteq> None
            \<and> get_column tmp' ''return'' \<noteq> None"
      using g t
      by (simp add: with_return_def d get_column_take_rows get_column_with_column)
    then obtain tmp' where s3: "with_return ?tmp = Inr tmp'"
      and g3: "get_column tmp' ''trade_date'' \<noteq> None" "get_column tmp' ''ticker'' \<noteq> None"
        "get_column tmp' ''return'' \<noteq> None" by blast
    then have "\<exists>sel. select [''trade_date'', ''ticker'', ''return''] tmp' = Inr sel"
      by auto
    with assms(2) cols Inr s2 s3 show ?thesis
      by (auto simp: aggregate3_def simp del: select.simps)
  qed
qed

text \<open>
  On a frame with the types of the schema, as the schema stage leaves it, stage 7 ends
  without an exception, or with a column that is not found, or with a date that does not
  parse; the operations on columns of other types, which are not described, do not
  occur.
\<close>

lemma aggregates_errors:
  assumes "typed df"
  shows "raised (aggregates df) \<in> {None, Some ColumnNotFoundError, Some ComputeError}"
  using aggregate1_error [OF assms] aggregate2_error [OF assms] aggregate3_error [OF assms]
  by (auto simp: aggregates_def nothing_def split: sum.splits)

lemma clean_typed:
  assumes "clean repr raw = Inr df"
  shows "typed df"
proof -
  from assms obtain d4 d5 where e: "enforce_schema repr d4 = Inr d5" and u: "df = unique d5"
    by (auto simp: clean_def split: sum.splits)
  from enforce_schema_typed [OF e] have "typed d5" .
  then show ?thesis unfolding u unique_def by (rule typed_take_rows)
qed

end
